theory Spec2Isabelle
  imports Main
begin

section \<open>The AudioCall component: data\<close>

text \<open>
  The call engine of the repository is the React component \<open>AudioCall\<close>
  (second half of \<open>src/components/ChatRequests.tsx\<close>). Its functions
  \<open>initializeCall\<close>, \<open>sendSignalingMessage\<close>, \<open>subscribeToSignaling\<close>,
  \<open>toggleMute\<close>, \<open>handleEndCall\<close> and \<open>cleanup\<close> are embedded below as
  state-passing functions on a record of the component state. Everything the
  component does to the outside (browser media API, peer connection, signaling
  channel, toasts, the \<open>onClose\<close> callback) is appended to a trace.
  \<open>console.log\<close> lines are left out; \<open>console.error\<close> lines are kept.
\<close>

type_synonym ParticipantId = string
type_synonym Sdp = string
type_synonym IceCand = string
type_synonym Ref = nat

text \<open>The \<open>message\<close> object of a signaling payload, discriminated by its \<open>type\<close> field.\<close>

datatype Message =
    Offer Sdp
  | Answer Sdp
  | IceCandidate IceCand
  | EndCall
  | OtherType string

text \<open>
  A broadcast payload. The component writes and reads \<open>from\<close>, \<open>to\<close> and
  \<open>message\<close>; a received payload is an open JSON object, so whatever else
  it carries is kept in \<open>p_extra\<close>, which no line of the component reads.
\<close>

record Payload =
  p_from :: ParticipantId
  p_to :: ParticipantId
  p_message :: Message
  p_extra :: "(string \<times> string) list"

datatype CallStatus = Connecting | Connected | Ended

datatype TrackKind = AudioKind | VideoKind

record Track =
  kind :: TrackKind
  enabled :: bool
  stopped :: bool

datatype IceConnectionState =
  IceNew | IceChecking | IceConnected | IceCompleted | IceFailed | IceDisconnected | IceClosed

datatype SubscribeStatus = SUBSCRIBED | TIMED_OUT | CLOSED | CHANNEL_ERROR

datatype LogLine =
    ChannelNotInitialized
  | ErrorSendingSignalingMessage
  | ErrorProcessingSignalingMessage
  | ErrorInitializingCall

datatype ToastLine = CallConnected | ConnectionLost | MicrophoneUnavailable

text \<open>What the component does to its environment, in program order.\<close>

datatype Effect =
    GetUserMedia
  | NewPeerConnection Ref
  | AddTrack Ref Track
  | Subscribe string
  | ResolveSubscribed
  | SetTimeout nat
  | CreateOffer Ref
  | CreateAnswer Ref
  | SetLocalDescription Ref Sdp
  | SetRemoteDescription Ref Sdp
  | AddIceCandidate Ref IceCand
  | ClosePeerConnection Ref
  | Send string Payload
  | StopTrack Ref
  | RemoveChannel string
  | SetInterval nat
  | ClearInterval nat
  | AttachRemoteAudio
  | ConsoleError LogLine
  | Toast ToastLine
  | OnClose

text \<open>The props of the component that the call logic reads.\<close>

record Props =
  chatId :: string
  currentUserId :: ParticipantId
  otherUserId :: ParticipantId
  isInitiator :: bool

text \<open>
  The functions of a React component are closures of one render: they see the
  props and the \<open>useState\<close> values of that render, not later ones. A
  \<open>Scope\<close> is what such a closure sees. Refs (\<open>channelRef\<close>,
  \<open>callTimerRef\<close>) are shared mutable cells and live in the state instead.
\<close>

record Scope =
  s_props :: Props
  s_localStream :: "Ref option"
  s_peerConnection :: "Ref option"
  s_isMuted :: bool

text \<open>Where the asynchronous \<open>initializeCall\<close> is suspended.\<close>

datatype InitPhase = NotStarted | AwaitingMedia | AwaitingSubscribed | AwaitingSettle | Finished

text \<open>
  How a call of the channel's \<open>send\<close> ends: its promise resolves to a
  status (\<open>'ok'\<close>, \<open>'timed out'\<close> or \<open>'error'\<close>), or the call throws or
  its promise rejects.
\<close>

datatype SendStatus = SendOk | SendTimedOut | SendError

datatype SendResult = Resolves SendStatus | Throws

text \<open>
  The browser's peer connection and the channel's \<open>send\<close> are not code of
  the repository: they are a parameter. For the calls on the connection
  \<open>None\<close> is a rejected promise or a thrown exception.
\<close>

record 'pc Platform =
  newPeerConnection :: 'pc
  pcAddTrack :: "'pc \<Rightarrow> Track \<Rightarrow> 'pc"
  pcCreateOffer :: "'pc \<Rightarrow> Sdp option"
  pcCreateAnswer :: "'pc \<Rightarrow> Sdp option"
  pcSetLocalDescription :: "'pc \<Rightarrow> Sdp \<Rightarrow> 'pc option"
  pcSetRemoteDescription :: "'pc \<Rightarrow> Sdp \<Rightarrow> 'pc option"
  pcAddIceCandidate :: "'pc \<Rightarrow> IceCand \<Rightarrow> 'pc option"
  pcClose :: "'pc \<Rightarrow> 'pc"
  channelSend :: "Payload \<Rightarrow> SendResult"

text \<open>
  The state of one mounted component: the \<open>useState\<close> cells, the refs, the
  suspended \<open>initializeCall\<close> (its phase, the scope it was called in and its
  local \<open>pc\<close>, which the handlers it registers capture too), the objects the
  references point to, and the trace.
\<close>

record 'pc World =
  localStream :: "Ref option"
  peerConnection :: "Ref option"
  isMuted :: bool
  callStatus :: CallStatus
  callDuration :: nat
  audioRef :: bool
  channelRef :: "string option"
  callTimerRef :: "nat option"
  initPhase :: InitPhase
  scope :: Scope
  pc :: "Ref option"
  streams :: "Ref \<Rightarrow> Track list"
  conns :: "Ref \<Rightarrow> 'pc"
  nextRef :: Ref
  trace :: "Effect list"

definition emit :: "Effect list \<Rightarrow> 'pc World \<Rightarrow> 'pc World" where
  "emit es w = w\<lparr>trace := trace w @ es\<rparr>"

definition topic :: "Scope \<Rightarrow> string" where
  "topic sc = ''audio-call-'' @ chatId (s_props sc)"

definition current_scope :: "Props \<Rightarrow> 'pc World \<Rightarrow> Scope" where
  "current_scope p w =
     \<lparr>s_props = p, s_localStream = localStream w,
      s_peerConnection = peerConnection w, s_isMuted = isMuted w\<rparr>"

section \<open>The functions of the component\<close>

text \<open>
  \<open>sendSignalingMessage\<close> is asynchronous. Up to its \<open>await\<close> it runs with
  its caller: the check of \<open>channelRef.current\<close> and the call of \<open>send\<close>.
  The result says whether a send is in flight and how it will end.
\<close>

definition signal :: "Scope \<Rightarrow> Message \<Rightarrow> Payload" where
  "signal sc m =
     \<lparr>p_from = currentUserId (s_props sc), p_to = otherUserId (s_props sc),
      p_message = m, p_extra = []\<rparr>"

definition sendSignalingMessage_call ::
  "'pc Platform \<Rightarrow> Scope \<Rightarrow> Message \<Rightarrow> 'pc World \<Rightarrow> 'pc World \<times> SendResult option" where
  "sendSignalingMessage_call pf sc m w =
     (case channelRef w of
        None \<Rightarrow> (emit [ConsoleError ChannelNotInitialized] w, None)
      | Some ch \<Rightarrow> (emit [Send ch (signal sc m)] w, Some (channelSend pf (signal sc m))))"

text \<open>
  When the send has ended. What the promise resolves to is thrown away, so a
  send that resolves leaves nothing behind, whatever its status; only a throw
  or a rejection reaches the \<open>catch\<close>, which logs it.
\<close>

definition sendSignalingMessage_settle :: "SendResult option \<Rightarrow> 'pc World \<Rightarrow> 'pc World" where
  "sendSignalingMessage_settle r w =
     (case r of
        Some Throws \<Rightarrow> emit [ConsoleError ErrorSendingSignalingMessage] w
      | Some (Resolves status) \<Rightarrow> w
      | None \<Rightarrow> w)"

text \<open>The awaited form, \<open>await sendSignalingMessage(m)\<close>.\<close>

definition sendSignalingMessage :: "'pc Platform \<Rightarrow> Scope \<Rightarrow> Message \<Rightarrow> 'pc World \<Rightarrow> 'pc World" where
  "sendSignalingMessage pf sc m w =
     (let (w1, r) = sendSignalingMessage_call pf sc m w in sendSignalingMessage_settle r w1)"

definition stopTrack :: "Track \<Rightarrow> Track" where
  "stopTrack t = t\<lparr>stopped := True\<rparr>"

definition cleanup :: "'pc Platform \<Rightarrow> Scope \<Rightarrow> 'pc World \<Rightarrow> 'pc World" where
  "cleanup pf sc w =
     (let w1 = (case s_localStream sc of
                  None \<Rightarrow> w
                | Some sid \<Rightarrow>
                    emit (map (\<lambda>t. StopTrack sid) (streams w sid))
                      (w\<lparr>streams := (streams w)(sid := map stopTrack (streams w sid))\<rparr>));
          w2 = (case s_peerConnection sc of
                  None \<Rightarrow> w1
                | Some p \<Rightarrow>
                    emit [ClosePeerConnection p]
                      (w1\<lparr>conns := (conns w1)(p := pcClose pf (conns w1 p))\<rparr>));
          w3 = (case channelRef w2 of
                  None \<Rightarrow> w2
                | Some ch \<Rightarrow> emit [RemoveChannel ch] (w2\<lparr>channelRef := None\<rparr>));
          w4 = (case callTimerRef w3 of
                  None \<Rightarrow> w3
                | Some t \<Rightarrow> emit [ClearInterval t] w3)
      in w4\<lparr>localStream := None, peerConnection := None,
            callStatus := Ended, callDuration := 0\<rparr>)"

text \<open>
  \<open>handleEndCall\<close> does not await the send: \<open>cleanup\<close> and \<open>onClose\<close> run
  while it is in flight, and it settles afterwards.
\<close>

definition handleEndCall :: "'pc Platform \<Rightarrow> Scope \<Rightarrow> 'pc World \<Rightarrow> 'pc World" where
  "handleEndCall pf sc w =
     (let (w1, r) = (case channelRef w of
                       None \<Rightarrow> (w, None)
                     | Some ch \<Rightarrow> sendSignalingMessage_call pf sc EndCall w);
          w2 = cleanup pf sc w1;
          w3 = emit [OnClose] w2
      in sendSignalingMessage_settle r w3)"

definition toggleTrack :: "Track \<Rightarrow> Track" where
  "toggleTrack t = (if kind t = AudioKind then t\<lparr>enabled := \<not> enabled t\<rparr> else t)"

definition toggleMute :: "Scope \<Rightarrow> 'pc World \<Rightarrow> 'pc World" where
  "toggleMute sc w =
     (case s_localStream sc of
        None \<Rightarrow> w
      | Some sid \<Rightarrow>
          w\<lparr>streams := (streams w)(sid := map toggleTrack (streams w sid)),
            isMuted := \<not> s_isMuted sc\<rparr>)"

text \<open>
  The broadcast handler registered by \<open>subscribeToSignaling\<close>. It captures the
  scope of the render that called \<open>initializeCall\<close> and that call's \<open>pc\<close>.
  Each branch of its \<open>try\<close> stops at the first rejected promise, and the
  \<open>catch\<close> logs it.
\<close>

definition processingFailed :: "'pc World \<Rightarrow> 'pc World" where
  "processingFailed w = emit [ConsoleError ErrorProcessingSignalingMessage] w"

definition onOffer :: "'pc Platform \<Rightarrow> Scope \<Rightarrow> Ref \<Rightarrow> Sdp \<Rightarrow> 'pc World \<Rightarrow> 'pc World" where
  "onOffer pf sc p offer w =
     (let w1 = emit [SetRemoteDescription p offer] w in
      case pcSetRemoteDescription pf (conns w1 p) offer of
        None \<Rightarrow> processingFailed w1
      | Some c1 \<Rightarrow>
          (let w2 = emit [CreateAnswer p] (w1\<lparr>conns := (conns w1)(p := c1)\<rparr>) in
           case pcCreateAnswer pf c1 of
             None \<Rightarrow> processingFailed w2
           | Some answer \<Rightarrow>
               (let w3 = emit [SetLocalDescription p answer] w2 in
                case pcSetLocalDescription pf c1 answer of
                  None \<Rightarrow> processingFailed w3
                | Some c2 \<Rightarrow>
                    sendSignalingMessage pf sc (Answer answer)
                      (w3\<lparr>conns := (conns w3)(p := c2)\<rparr>))))"

definition onAnswer :: "'pc Platform \<Rightarrow> Ref \<Rightarrow> Sdp \<Rightarrow> 'pc World \<Rightarrow> 'pc World" where
  "onAnswer pf p answer w =
     (let w1 = emit [SetRemoteDescription p answer] w in
      case pcSetRemoteDescription pf (conns w1 p) answer of
        None \<Rightarrow> processingFailed w1
      | Some c1 \<Rightarrow> w1\<lparr>conns := (conns w1)(p := c1)\<rparr>)"

definition onRemoteCandidate :: "'pc Platform \<Rightarrow> Ref \<Rightarrow> IceCand \<Rightarrow> 'pc World \<Rightarrow> 'pc World" where
  "onRemoteCandidate pf p c w =
     (let w1 = emit [AddIceCandidate p c] w in
      case pcAddIceCandidate pf (conns w1 p) c of
        None \<Rightarrow> processingFailed w1
      | Some c1 \<Rightarrow> w1\<lparr>conns := (conns w1)(p := c1)\<rparr>)"

definition onBroadcast :: "'pc Platform \<Rightarrow> Scope \<Rightarrow> Ref \<Rightarrow> Payload \<Rightarrow> 'pc World \<Rightarrow> 'pc World" where
  "onBroadcast pf sc p payload w =
     (if p_to payload \<noteq> currentUserId (s_props sc) then w
      else case p_message payload of
             Offer offer \<Rightarrow> onOffer pf sc p offer w
           | Answer answer \<Rightarrow> onAnswer pf p answer w
           | IceCandidate c \<Rightarrow> onRemoteCandidate pf p c w
           | EndCall \<Rightarrow> handleEndCall pf sc w
           | OtherType t \<Rightarrow> w)"

text \<open>The three handlers that \<open>initializeCall\<close> puts on the peer connection.\<close>

definition ontrack :: "'pc World \<Rightarrow> 'pc World" where
  "ontrack w =
     emit [Toast CallConnected]
       ((if audioRef w then emit [AttachRemoteAudio] w else w)\<lparr>callStatus := Connected\<rparr>)"

definition onicecandidate :: "'pc Platform \<Rightarrow> Scope \<Rightarrow> IceCand option \<Rightarrow> 'pc World \<Rightarrow> 'pc World" where
  "onicecandidate pf sc ev w =
     (case ev of
        None \<Rightarrow> w
      | Some c \<Rightarrow> sendSignalingMessage pf sc (IceCandidate c) w)"

definition oniceconnectionstatechange ::
  "'pc Platform \<Rightarrow> Scope \<Rightarrow> IceConnectionState \<Rightarrow> 'pc World \<Rightarrow> 'pc World" where
  "oniceconnectionstatechange pf sc st w =
     (if st = IceConnected then w\<lparr>callStatus := Connected\<rparr>
      else if st = IceFailed \<or> st = IceDisconnected
           then handleEndCall pf sc (emit [Toast ConnectionLost] w)
      else w)"

text \<open>
  \<open>initializeCall\<close>, cut at its awaits. The first part asks for the
  microphone; it continues in \<open>onUserMedia\<close>, in the \<open>SUBSCRIBED\<close> branch of
  \<open>onSubscribeStatus\<close> and in \<open>onSettleTimeout\<close>. Its \<open>catch\<close> is
  \<open>initializeCall_catch\<close>.
\<close>

definition initializeCall_catch :: "'pc World \<Rightarrow> 'pc World" where
  "initializeCall_catch w =
     emit [ConsoleError ErrorInitializingCall, Toast MicrophoneUnavailable, OnClose]
       (w\<lparr>initPhase := Finished\<rparr>)"

definition initializeCall :: "Scope \<Rightarrow> 'pc World \<Rightarrow> 'pc World" where
  "initializeCall sc w = emit [GetUserMedia] (w\<lparr>scope := sc, initPhase := AwaitingMedia\<rparr>)"

definition onUserMedia :: "'pc Platform \<Rightarrow> Track list option \<Rightarrow> 'pc World \<Rightarrow> 'pc World" where
  "onUserMedia pf res w =
     (if initPhase w \<noteq> AwaitingMedia then w
      else case res of
             None \<Rightarrow> initializeCall_catch w
           | Some tracks \<Rightarrow>
               (let sid = nextRef w;
                    p = Suc (nextRef w);
                    w1 = w\<lparr>nextRef := nextRef w + 2,
                           streams := (streams w)(sid := tracks),
                           localStream := Some sid,
                           conns := (conns w)(p := foldl (pcAddTrack pf) (newPeerConnection pf) tracks),
                           peerConnection := Some p,
                           pc := Some p,
                           initPhase := AwaitingSubscribed\<rparr>
                in emit ([NewPeerConnection p] @ map (AddTrack p) tracks @ [Subscribe (topic (scope w))]) w1))"

text \<open>
  The status callback of \<open>subscribeToSignaling\<close>. On \<open>SUBSCRIBED\<close> it stores
  the channel and resolves the promise; \<open>initializeCall\<close>, if it is waiting
  for that, goes on: the initiator starts the one-second timer.
\<close>

definition onSubscribeStatus :: "SubscribeStatus \<Rightarrow> 'pc World \<Rightarrow> 'pc World" where
  "onSubscribeStatus st w =
     (if st = SUBSCRIBED then
        (let w1 = emit [ResolveSubscribed] (w\<lparr>channelRef := Some (topic (scope w))\<rparr>) in
         if initPhase w = AwaitingSubscribed then
           (if isInitiator (s_props (scope w))
            then emit [SetTimeout 1000] (w1\<lparr>initPhase := AwaitingSettle\<rparr>)
            else w1\<lparr>initPhase := Finished\<rparr>)
         else w1)
      else w)"

definition onSettleTimeout :: "'pc Platform \<Rightarrow> Ref \<Rightarrow> 'pc World \<Rightarrow> 'pc World" where
  "onSettleTimeout pf p w =
     (if initPhase w \<noteq> AwaitingSettle then w
      else
        (let w1 = emit [CreateOffer p] (w\<lparr>initPhase := Finished\<rparr>) in
         case pcCreateOffer pf (conns w1 p) of
           None \<Rightarrow> initializeCall_catch w1
         | Some offer \<Rightarrow>
             (let w2 = emit [SetLocalDescription p offer] w1 in
              case pcSetLocalDescription pf (conns w2 p) offer of
                None \<Rightarrow> initializeCall_catch w2
              | Some c1 \<Rightarrow>
                  sendSignalingMessage pf (scope w) (Offer offer)
                    (w2\<lparr>conns := (conns w2)(p := c1)\<rparr>))))"

text \<open>
  The effect on \<open>callStatus\<close>: it first runs the destructor of its previous
  run, then starts the duration timer when the call is connected and clears it
  otherwise. A tick of the timer adds a second.
\<close>

definition clearCallTimer :: "'pc World \<Rightarrow> 'pc World" where
  "clearCallTimer w = (case callTimerRef w of None \<Rightarrow> w | Some t \<Rightarrow> emit [ClearInterval t] w)"

definition callStatusEffect :: "nat \<Rightarrow> 'pc World \<Rightarrow> 'pc World" where
  "callStatusEffect t w =
     (let w1 = clearCallTimer w in
      if callStatus w1 = Connected then emit [SetInterval t] (w1\<lparr>callTimerRef := Some t\<rparr>)
      else clearCallTimer w1)"

definition tick :: "'pc World \<Rightarrow> 'pc World" where
  "tick w = w\<lparr>callDuration := callDuration w + 1\<rparr>"

section \<open>Events and runs\<close>

text \<open>
  What can happen to a mounted component. Callbacks registered by
  \<open>initializeCall\<close> run in the scope stored with it and exist once its
  \<open>pc\<close> does; the two buttons run in the scope of the current render, and
  the mute button is disabled unless the call is connected. \<open>SettleTimeout\<close>
  is the expiry of the timer that \<open>initializeCall\<close> starts with
  \<open>setTimeout(resolve, 1000)\<close>, \<open>SubscribeStatusEv\<close> a status handed to the
  callback of \<open>subscribe\<close>. Each handler runs to its end before the next
  event.
\<close>

datatype Event =
    UserMedia "Track list option"
  | SubscribeStatusEv SubscribeStatus
  | SettleTimeout
  | Broadcast Payload
  | TrackEv
  | LocalCandidate "IceCand option"
  | IceStateChange IceConnectionState
  | ClickMute
  | ClickHangUp
  | EffectDestructor
  | CallStatusEffectEv nat
  | TickEv

definition step :: "'pc Platform \<Rightarrow> Props \<Rightarrow> Event \<Rightarrow> 'pc World \<Rightarrow> 'pc World" where
  "step pf props ev w =
     (case ev of
        UserMedia res \<Rightarrow> onUserMedia pf res w
      | SubscribeStatusEv st \<Rightarrow> (case pc w of None \<Rightarrow> w | Some p \<Rightarrow> onSubscribeStatus st w)
      | SettleTimeout \<Rightarrow> (case pc w of None \<Rightarrow> w | Some p \<Rightarrow> onSettleTimeout pf p w)
      | Broadcast payload \<Rightarrow> (case pc w of None \<Rightarrow> w | Some p \<Rightarrow> onBroadcast pf (scope w) p payload w)
      | TrackEv \<Rightarrow> (case pc w of None \<Rightarrow> w | Some p \<Rightarrow> ontrack w)
      | LocalCandidate c \<Rightarrow> (case pc w of None \<Rightarrow> w | Some p \<Rightarrow> onicecandidate pf (scope w) c w)
      | IceStateChange st \<Rightarrow>
          (case pc w of None \<Rightarrow> w | Some p \<Rightarrow> oniceconnectionstatechange pf (scope w) st w)
      | ClickMute \<Rightarrow>
          (if callStatus w = Connected then toggleMute (current_scope props w) w else w)
      | ClickHangUp \<Rightarrow> handleEndCall pf (current_scope props w) w
      | EffectDestructor \<Rightarrow> cleanup pf (scope w) w
      | CallStatusEffectEv t \<Rightarrow> callStatusEffect t w
      | TickEv \<Rightarrow> tick w)"

fun run :: "'pc Platform \<Rightarrow> Props \<Rightarrow> Event list \<Rightarrow> 'pc World \<Rightarrow> 'pc World" where
  "run pf props [] w = w"
| "run pf props (ev # evs) w = run pf props evs (step pf props ev w)"

text \<open>A freshly mounted component, before the dialog is opened.\<close>

definition mounted :: "'pc Platform \<Rightarrow> Props \<Rightarrow> 'pc World" where
  "mounted pf props =
     \<lparr>localStream = None, peerConnection = None, isMuted = False,
      callStatus = Connecting, callDuration = 0, audioRef = True,
      channelRef = None, callTimerRef = None,
      initPhase = NotStarted,
      scope = \<lparr>s_props = props, s_localStream = None, s_peerConnection = None, s_isMuted = False\<rparr>,
      pc = None,
      streams = (\<lambda>_. []), conns = (\<lambda>_. newPeerConnection pf),
      nextRef = 0, trace = []\<rparr>"

text \<open>Opening the dialog runs \<open>initializeCall\<close> in the scope of that render.\<close>

definition opened :: "'pc Platform \<Rightarrow> Props \<Rightarrow> 'pc World" where
  "opened pf props = initializeCall (current_scope props (mounted pf props)) (mounted pf props)"

section \<open>A concrete platform for running the component\<close>

text \<open>
  For concrete runs the peer connection follows the WebRTC recommendation of
  the W3C: a closed connection rejects everything; \<open>createAnswer\<close> and
  \<open>addIceCandidate\<close> are rejected while there is no remote description;
  the other calls succeed. Every \<open>send\<close> ends the same way: as given to
  \<open>browserWith\<close>; for \<open>browser\<close>, resolving to \<open>'ok'\<close> or throwing.
\<close>

record PeerConn =
  remoteDescription :: "Sdp option"
  localDescription :: "Sdp option"
  remoteCandidates :: "IceCand list"
  senders :: "Track list"
  closed :: bool

definition browserWith :: "SendResult \<Rightarrow> PeerConn Platform" where
  "browserWith sent =
     \<lparr>newPeerConnection =
        \<lparr>remoteDescription = None, localDescription = None, remoteCandidates = [],
         senders = [], closed = False\<rparr>,
      pcAddTrack = (\<lambda>c t. c\<lparr>senders := senders c @ [t]\<rparr>),
      pcCreateOffer = (\<lambda>c. if closed c then None else Some ''sdp-offer''),
      pcCreateAnswer =
        (\<lambda>c. if closed c \<or> remoteDescription c = None then None else Some ''sdp-answer''),
      pcSetLocalDescription =
        (\<lambda>c d. if closed c then None else Some (c\<lparr>localDescription := Some d\<rparr>)),
      pcSetRemoteDescription =
        (\<lambda>c d. if closed c then None else Some (c\<lparr>remoteDescription := Some d\<rparr>)),
      pcAddIceCandidate =
        (\<lambda>c x. if closed c \<or> remoteDescription c = None then None
               else Some (c\<lparr>remoteCandidates := remoteCandidates c @ [x]\<rparr>)),
      pcClose = (\<lambda>c. c\<lparr>closed := True\<rparr>),
      channelSend = (\<lambda>_. sent)\<rparr>"

definition browser :: "bool \<Rightarrow> PeerConn Platform" where
  "browser sendOk = browserWith (if sendOk then Resolves SendOk else Throws)"

definition microphone :: Track where
  "microphone = \<lparr>kind = AudioKind, enabled = True, stopped = False\<rparr>"

definition callee :: Props where
  "callee = \<lparr>chatId = ''chat-7'', currentUserId = ''bob'', otherUserId = ''alice'',
             isInitiator = False\<rparr>"

definition caller :: Props where
  "caller = \<lparr>chatId = ''chat-7'', currentUserId = ''alice'', otherUserId = ''bob'',
             isInitiator = True\<rparr>"

definition toBob :: "Message \<Rightarrow> Payload" where
  "toBob m = \<lparr>p_from = ''alice'', p_to = ''bob'', p_message = m, p_extra = []\<rparr>"

definition toAlice :: "Message \<Rightarrow> Payload" where
  "toAlice m = \<lparr>p_from = ''bob'', p_to = ''alice'', p_message = m, p_extra = []\<rparr>"

section \<open>Reading a trace\<close>

fun isOffer :: "Message \<Rightarrow> bool" where
  "isOffer (Offer d) = True"
| "isOffer _ = False"

fun isOfferSend :: "Effect \<Rightarrow> bool" where
  "isOfferSend (Send ch p) = isOffer (p_message p)"
| "isOfferSend _ = False"

fun isHangupSend :: "Effect \<Rightarrow> bool" where
  "isHangupSend (Send ch p) = (p_message p = EndCall)"
| "isHangupSend _ = False"

fun isSend :: "Effect \<Rightarrow> bool" where
  "isSend (Send ch p) = True"
| "isSend _ = False"

text \<open>The three releases of \<open>cleanup\<close>: tracks, connection, channel.\<close>

fun isRelease :: "Effect \<Rightarrow> bool" where
  "isRelease (StopTrack s) = True"
| "isRelease (ClosePeerConnection p) = True"
| "isRelease (RemoveChannel ch) = True"
| "isRelease _ = False"

text \<open>Calls on the peer connection that negotiate: descriptions and candidates.\<close>

fun isNegotiation :: "Effect \<Rightarrow> bool" where
  "isNegotiation (CreateOffer p) = True"
| "isNegotiation (CreateAnswer p) = True"
| "isNegotiation (SetLocalDescription p d) = True"
| "isNegotiation (SetRemoteDescription p d) = True"
| "isNegotiation (AddIceCandidate p c) = True"
| "isNegotiation _ = False"

definition count :: "(Effect \<Rightarrow> bool) \<Rightarrow> Effect list \<Rightarrow> nat" where
  "count P tr = length (filter P tr)"

text \<open>The candidates handed to \<open>addIceCandidate\<close>, in call order.\<close>

fun addIceCalls :: "Effect list \<Rightarrow> IceCand list" where
  "addIceCalls [] = []"
| "addIceCalls (AddIceCandidate p c # es) = c # addIceCalls es"
| "addIceCalls (e # es) = addIceCalls es"

text \<open>
  The candidates among a sequence of delivered payloads that are addressed to
  the participant \<open>me\<close>, in arrival order.
\<close>

fun receivedCandidates :: "ParticipantId \<Rightarrow> Payload list \<Rightarrow> IceCand list" where
  "receivedCandidates me [] = []"
| "receivedCandidates me (pl # pls) =
     (case p_message pl of
        IceCandidate c \<Rightarrow> (if p_to pl = me then c # receivedCandidates me pls
                           else receivedCandidates me pls)
      | _ \<Rightarrow> receivedCandidates me pls)"

text \<open>Delivering a sequence of payloads to the broadcast handler, one after the other.\<close>

fun deliver :: "'pc Platform \<Rightarrow> Scope \<Rightarrow> Ref \<Rightarrow> Payload list \<Rightarrow> 'pc World \<Rightarrow> 'pc World" where
  "deliver pf sc p [] w = w"
| "deliver pf sc p (pl # pls) w = deliver pf sc p pls (onBroadcast pf sc p pl w)"

text \<open>
  A trace is settled once the subscribe promise was resolved and the
  one-second timer was started after that.
\<close>

definition settled :: "Effect list \<Rightarrow> bool" where
  "settled tr = (\<exists>a b c. tr = a @ ResolveSubscribed # b @ SetTimeout 1000 # c)"

text \<open>
  What \<open>cleanup\<close>, run in scope \<open>sc\<close> on state \<open>w\<close>, does to the outside:
  it stops the tracks of the stream its scope sees, closes the connection its
  scope sees, removes the channel held in \<open>channelRef\<close> and clears the timer
  held in \<open>callTimerRef\<close>.
\<close>

definition released :: "Scope \<Rightarrow> 'pc World \<Rightarrow> Effect list" where
  "released sc w =
     (case s_localStream sc of None \<Rightarrow> [] | Some sid \<Rightarrow> map (\<lambda>t. StopTrack sid) (streams w sid))
     @ (case s_peerConnection sc of None \<Rightarrow> [] | Some p \<Rightarrow> [ClosePeerConnection p])
     @ (case channelRef w of None \<Rightarrow> [] | Some ch \<Rightarrow> [RemoveChannel ch])
     @ (case callTimerRef w of None \<Rightarrow> [] | Some t \<Rightarrow> [ClearInterval t])"

text \<open>What a send that has ended leaves in the log.\<close>

definition sendLog :: "'pc Platform \<Rightarrow> Payload \<Rightarrow> Effect list" where
  "sendLog pf payload =
     (if channelSend pf payload = Throws then [ConsoleError ErrorSendingSignalingMessage] else [])"

text \<open>A list of effects without the send of an offer.\<close>

definition noOffer :: "Effect list \<Rightarrow> bool" where
  "noOffer es = (\<forall>e\<in>set es. \<not> isOfferSend e)"

text \<open>
  \<open>quiet w w'\<close>: from \<open>w\<close> to \<open>w'\<close> the scope stayed, the trace grew by
  effects without an offer, and \<open>initializeCall\<close> did not newly reach the
  wait for the settle timer.
\<close>

definition quiet :: "'pc World \<Rightarrow> 'pc World \<Rightarrow> bool" where
  "quiet w w' =
     (scope w' = scope w \<and>
      (initPhase w' = AwaitingSettle \<longrightarrow> initPhase w = AwaitingSettle) \<and>
      (\<exists>es. trace w' = trace w @ es \<and> noOffer es))"

text \<open>Every send of an offer in the trace has a settled trace before it.\<close>

definition offersGuarded :: "Effect list \<Rightarrow> bool" where
  "offersGuarded tr =
     (\<forall>xs ch pl ys. tr = xs @ Send ch pl # ys \<longrightarrow> isOffer (p_message pl) \<longrightarrow> settled xs)"

text \<open>
  What holds along every run: offers are guarded; while \<open>initializeCall\<close>
  waits for the settle timer the trace is settled and the scope is the
  initiator's; and the trace of a responder has no offer.
\<close>

definition offerInv :: "'pc World \<Rightarrow> bool" where
  "offerInv w =
     (offersGuarded (trace w) \<and>
      (initPhase w = AwaitingSettle \<longrightarrow> settled (trace w) \<and> isInitiator (s_props (scope w))) \<and>
      (\<not> isInitiator (s_props (scope w)) \<longrightarrow> noOffer (trace w)))"

text \<open>
  The step of event \<open>ev\<close> from state \<open>w\<close> sends an offer: the trace has
  one more send of an offer after it than before.
\<close>

definition sendsOffer :: "'pc Platform \<Rightarrow> Props \<Rightarrow> Event \<Rightarrow> 'pc World \<Rightarrow> bool" where
  "sendsOffer pf props ev w =
     (count isOfferSend (trace w) < count isOfferSend (trace (step pf props ev w)))"

text \<open>
  While \<open>initializeCall\<close> waits for the subscription or for the settle timer,
  its \<open>pc\<close> exists, and with it the handlers.
\<close>

definition pcInv :: "'pc World \<Rightarrow> bool" where
  "pcInv w = (initPhase w = AwaitingSubscribed \<or> initPhase w = AwaitingSettle \<longrightarrow> pc w \<noteq> None)"

text \<open>
  The settle timer runs after the events \<open>pre\<close>: among them is a
  \<open>SUBSCRIBED\<close> status whose step resolved the subscribe promise and started
  the timer of 1000 milliseconds, and the timer has not expired since.
\<close>

definition timerRuns :: "'pc Platform \<Rightarrow> Props \<Rightarrow> Event list \<Rightarrow> bool" where
  "timerRuns pf props pre =
     (\<exists>a b. pre = a @ SubscribeStatusEv SUBSCRIBED # b \<and> SettleTimeout \<notin> set b \<and>
        trace (run pf props (a @ [SubscribeStatusEv SUBSCRIBED]) (opened pf props)) =
          trace (run pf props a (opened pf props)) @ [ResolveSubscribed, SetTimeout 1000])"

text \<open>At most one offer was sent, and none before \<open>initializeCall\<close> finished.\<close>

definition offeredOnce :: "'pc World \<Rightarrow> bool" where
  "offeredOnce w =
     (count isOfferSend (trace w) \<le> 1 \<and> (initPhase w \<noteq> Finished \<longrightarrow> count isOfferSend (trace w) = 0))"

text \<open>
  Three concrete inputs: a responder whose call is connected; an initiator
  whose channel is subscribed and whose settle timer runs, on a platform whose
  every send ends as given; and an end-call payload left over from an earlier
  call on the same topic, tagged with that call's identifier.
\<close>

definition talking :: "PeerConn World" where
  "talking =
     run (browser True) callee
       [UserMedia (Some [microphone]), SubscribeStatusEv SUBSCRIBED,
        Broadcast (toBob (Offer ''sdp-remote'')), IceStateChange IceConnected]
       (opened (browser True) callee)"

definition offering :: "SendResult \<Rightarrow> PeerConn World" where
  "offering sent =
     run (browserWith sent) caller [UserMedia (Some [microphone]), SubscribeStatusEv SUBSCRIBED]
       (opened (browserWith sent) caller)"

definition staleHangup :: Payload where
  "staleHangup =
     \<lparr>p_from = ''alice'', p_to = ''bob'', p_message = EndCall,
      p_extra = [(''sessionId'', ''the-call-before-this-one'')]\<rparr>"

section \<open>Frame lemmas: what a handler leaves alone\<close>

lemma quiet_refl [simp]: "quiet w w"
  by (simp add: quiet_def noOffer_def)

lemma quiet_trans: "quiet a b \<Longrightarrow> quiet b c \<Longrightarrow> quiet a c"
  by (auto simp: quiet_def noOffer_def)

lemma quiet_fields [simp]:
  "quiet w (w'\<lparr>localStream := a1\<rparr>) = quiet w w'"
  "quiet w (w'\<lparr>peerConnection := a2\<rparr>) = quiet w w'"
  "quiet w (w'\<lparr>isMuted := a3\<rparr>) = quiet w w'"
  "quiet w (w'\<lparr>callStatus := a4\<rparr>) = quiet w w'"
  "quiet w (w'\<lparr>callDuration := a5\<rparr>) = quiet w w'"
  "quiet w (w'\<lparr>channelRef := a6\<rparr>) = quiet w w'"
  "quiet w (w'\<lparr>callTimerRef := a7\<rparr>) = quiet w w'"
  "quiet w (w'\<lparr>streams := a8\<rparr>) = quiet w w'"
  "quiet w (w'\<lparr>conns := a9\<rparr>) = quiet w w'"
  "quiet w (w'\<lparr>nextRef := a10\<rparr>) = quiet w w'"
  "quiet w (w'\<lparr>pc := a11\<rparr>) = quiet w w'"
  by (simp_all add: quiet_def)

lemma quiet_emit [simp]: "noOffer es \<Longrightarrow> quiet w w' \<Longrightarrow> quiet w (emit es w')"
  by (auto simp: quiet_def emit_def noOffer_def)

lemma quiet_call [simp]: "\<not> isOffer m \<Longrightarrow> quiet w w' \<Longrightarrow> quiet w (fst (sendSignalingMessage_call pf sc m w'))"
  by (cases "channelRef w'") (simp_all add: sendSignalingMessage_call_def signal_def noOffer_def)

lemma quiet_settle [simp]: "quiet w w' \<Longrightarrow> quiet w (sendSignalingMessage_settle r w')"
  by (simp add: sendSignalingMessage_settle_def noOffer_def split: option.splits SendResult.splits)

lemma quiet_send [simp]: "\<not> isOffer m \<Longrightarrow> quiet w w' \<Longrightarrow> quiet w (sendSignalingMessage pf sc m w')"
  by (simp add: sendSignalingMessage_def Let_def case_prod_unfold)

lemma quiet_cleanup [simp]: "quiet w w' \<Longrightarrow> quiet w (cleanup pf sc w')"
  by (simp add: cleanup_def Let_def noOffer_def split: option.splits)

lemma quiet_handleEndCall [simp]: "quiet w w' \<Longrightarrow> quiet w (handleEndCall pf sc w')"
  by (simp add: handleEndCall_def Let_def case_prod_unfold noOffer_def split: option.splits)

lemma quiet_toggleMute [simp]: "quiet w w' \<Longrightarrow> quiet w (toggleMute sc w')"
  by (simp add: toggleMute_def split: option.splits)

lemma quiet_failed [simp]: "quiet w w' \<Longrightarrow> quiet w (processingFailed w')"
  by (simp add: processingFailed_def noOffer_def)

lemma quiet_onOffer [simp]: "quiet w w' \<Longrightarrow> quiet w (onOffer pf sc p d w')"
  by (simp add: onOffer_def Let_def noOffer_def split: option.splits)

lemma quiet_onAnswer [simp]: "quiet w w' \<Longrightarrow> quiet w (onAnswer pf p d w')"
  by (simp add: onAnswer_def Let_def noOffer_def split: option.splits)

lemma quiet_onRemoteCandidate [simp]: "quiet w w' \<Longrightarrow> quiet w (onRemoteCandidate pf p d w')"
  by (simp add: onRemoteCandidate_def Let_def noOffer_def split: option.splits)

lemma quiet_onBroadcast [simp]: "quiet w w' \<Longrightarrow> quiet w (onBroadcast pf sc p pl w')"
  by (simp add: onBroadcast_def split: Message.splits)

lemma quiet_ontrack [simp]: "quiet w w' \<Longrightarrow> quiet w (ontrack w')"
  by (simp add: ontrack_def noOffer_def)
 
lemma quiet_onicecandidate [simp]: "quiet w w' \<Longrightarrow> quiet w (onicecandidate pf sc c w')"
  by (simp add: onicecandidate_def split: option.splits)

lemma quiet_oniceconnectionstatechange [simp]:
  "quiet w w' \<Longrightarrow> quiet w (oniceconnectionstatechange pf sc st w')"
  by (simp add: oniceconnectionstatechange_def noOffer_def)

lemma quiet_callStatusEffect [simp]: "quiet w w' \<Longrightarrow> quiet w (callStatusEffect t w')"
  by (simp add: callStatusEffect_def clearCallTimer_def Let_def noOffer_def split: option.splits)

lemma quiet_tick [simp]: "quiet w w' \<Longrightarrow> quiet w (tick w')"
  by (simp add: tick_def)

lemma quiet_phase [simp]: "ph \<noteq> AwaitingSettle \<Longrightarrow> quiet w w' \<Longrightarrow> quiet w (w'\<lparr>initPhase := ph\<rparr>)"
  by (simp add: quiet_def)

lemma quiet_catch [simp]: "quiet w w' \<Longrightarrow> quiet w (initializeCall_catch w')"
  by (simp add: initializeCall_catch_def noOffer_def)

lemma quiet_onUserMedia [simp]: "quiet w (onUserMedia pf res w)"
  by (simp add: onUserMedia_def Let_def noOffer_def split: option.splits)

lemma settled_append: "settled xs \<Longrightarrow> settled (xs @ ys)"
  unfolding settled_def by (metis append.assoc append_Cons)

lemma guarded_noOffer:
  assumes "offersGuarded tr" and "noOffer es"
  shows "offersGuarded (tr @ es)"
  unfolding offersGuarded_def
proof (intro allI impI)
  fix xs ch pl ys
  assume eq: "tr @ es = xs @ Send ch pl # ys" and off: "isOffer (p_message pl)"
  from eq consider zs where "tr = xs @ zs" "zs @ es = Send ch pl # ys"
    | zs where "tr @ zs = xs" "es = zs @ Send ch pl # ys"
    by (auto simp: append_eq_append_conv2)
  then show "settled xs"
  proof cases
    case 1
    show ?thesis
    proof (cases zs)
      case Nil
      with 1 off assms(2) show ?thesis by (auto simp: noOffer_def)
    next
      case (Cons z zs')
      with 1 have "tr = xs @ Send ch pl # zs'" by simp
      with assms(1) off show ?thesis unfolding offersGuarded_def by blast
    qed
  next
    case 2
    with off assms(2) show ?thesis by (auto simp: noOffer_def)
  qed
qed

lemma guarded_settled:
  assumes "offersGuarded tr" and "settled tr"
  shows "offersGuarded (tr @ es)"
  unfolding offersGuarded_def
proof (intro allI impI)
  fix xs ch pl ys
  assume eq: "tr @ es = xs @ Send ch pl # ys" and off: "isOffer (p_message pl)"
  from eq consider zs where "tr = xs @ zs" "zs @ es = Send ch pl # ys"
    | zs where "tr @ zs = xs" "es = zs @ Send ch pl # ys"
    by (auto simp: append_eq_append_conv2)
  then show "settled xs"
  proof cases
    case 1
    show ?thesis
    proof (cases zs)
      case Nil
      with 1 assms(2) show ?thesis by simp
    next
      case (Cons z zs')
      with 1 have "tr = xs @ Send ch pl # zs'" by simp
      with assms(1) off show ?thesis unfolding offersGuarded_def by blast
    qed
  next
    case 2
    with assms(2) show ?thesis using settled_append by blast
  qed
qed

lemma quiet_inv: "quiet w w' \<Longrightarrow> offerInv w \<Longrightarrow> offerInv w'"
  unfolding quiet_def offerInv_def
  by (auto simp: guarded_noOffer settled_append noOffer_def)

lemma quiet_scope: "quiet w w' \<Longrightarrow> scope w' = scope w"
  by (simp add: quiet_def)

lemma onSubscribeStatus_scope: "scope (onSubscribeStatus st w) = scope w"
  by (simp add: onSubscribeStatus_def Let_def emit_def)

lemma onSubscribeStatus_inv: "offerInv w \<Longrightarrow> offerInv (onSubscribeStatus st w)"
proof (cases "st = SUBSCRIBED \<and> initPhase w = AwaitingSubscribed \<and> isInitiator (s_props (scope w))")
  case True
  assume i: "offerInv w"
  have t: "trace (onSubscribeStatus st w) = trace w @ [ResolveSubscribed, SetTimeout 1000]"
    using True by (simp add: onSubscribeStatus_def Let_def emit_def)
  have "noOffer [ResolveSubscribed, SetTimeout 1000]" by (simp add: noOffer_def)
  then have g: "offersGuarded (trace (onSubscribeStatus st w))"
    using i t guarded_noOffer unfolding offerInv_def by metis
  have "settled (trace (onSubscribeStatus st w))"
    unfolding settled_def t by (rule exI [of _ "trace w"], rule exI [of _ "[]"], rule exI [of _ "[]"]) simp
  then show ?thesis
    using g True by (simp add: offerInv_def onSubscribeStatus_scope)
next
  case False
  assume i: "offerInv w"
  have "quiet w (onSubscribeStatus st w)"
    using False by (auto simp: onSubscribeStatus_def Let_def noOffer_def)
  then show ?thesis using i quiet_inv by blast
qed

lemma onSettleTimeout_scope: "scope (onSettleTimeout pf p w) = scope w"
  by (simp add: onSettleTimeout_def Let_def emit_def initializeCall_catch_def sendSignalingMessage_def
      sendSignalingMessage_call_def sendSignalingMessage_settle_def split: option.splits SendResult.splits)

lemma onSettleTimeout_trace: "\<exists>es. trace (onSettleTimeout pf p w) = trace w @ es"
  by (simp add: onSettleTimeout_def Let_def emit_def initializeCall_catch_def sendSignalingMessage_def
      sendSignalingMessage_call_def sendSignalingMessage_settle_def split: option.splits SendResult.splits)

lemma onSettleTimeout_phase: "initPhase (onSettleTimeout pf p w) \<noteq> AwaitingSettle"
  by (simp add: onSettleTimeout_def Let_def emit_def initializeCall_catch_def sendSignalingMessage_def
      sendSignalingMessage_call_def sendSignalingMessage_settle_def split: option.splits SendResult.splits)

lemma onSettleTimeout_inv: "offerInv w \<Longrightarrow> offerInv (onSettleTimeout pf p w)"
proof (cases "initPhase w = AwaitingSettle")
  case False
  assume "offerInv w"
  then show ?thesis using False by (simp add: onSettleTimeout_def)
next
  case True
  assume i: "offerInv w"
  obtain es where t: "trace (onSettleTimeout pf p w) = trace w @ es"
    using onSettleTimeout_trace by blast
  have "offersGuarded (trace w @ es)"
    using i True guarded_settled by (simp add: offerInv_def)
  then show ?thesis
    using i True t by (simp add: offerInv_def onSettleTimeout_phase onSettleTimeout_scope)
qed

lemma step_inv: "offerInv w \<Longrightarrow> offerInv (step pf props ev w) \<and> scope (step pf props ev w) = scope w"
proof (cases ev)
  case (SubscribeStatusEv st)
  assume "offerInv w"
  then show ?thesis
    using SubscribeStatusEv by (simp add: step_def onSubscribeStatus_inv onSubscribeStatus_scope split: option.splits)
next
  case SettleTimeout
  assume "offerInv w"
  then show ?thesis
    using SettleTimeout by (simp add: step_def onSettleTimeout_inv onSettleTimeout_scope split: option.splits)
next
  case (UserMedia res)
  assume i: "offerInv w"
  have "quiet w (step pf props ev w)" using UserMedia by (simp add: step_def)
  then show ?thesis using i quiet_inv quiet_scope by blast
next
  case (Broadcast pl)
  assume i: "offerInv w"
  have "quiet w (step pf props ev w)" using Broadcast by (simp add: step_def split: option.splits)
  then show ?thesis using i quiet_inv quiet_scope by blast
next
  case TrackEv
  assume i: "offerInv w"
  have "quiet w (step pf props ev w)" using TrackEv by (simp add: step_def split: option.splits)
  then show ?thesis using i quiet_inv quiet_scope by blast
next
  case (LocalCandidate c)
  assume i: "offerInv w"
  have "quiet w (step pf props ev w)" using LocalCandidate by (simp add: step_def split: option.splits)
  then show ?thesis using i quiet_inv quiet_scope by blast
next
  case (IceStateChange st)
  assume i: "offerInv w"
  have "quiet w (step pf props ev w)" using IceStateChange by (simp add: step_def split: option.splits)
  then show ?thesis using i quiet_inv quiet_scope by blast
next
  case ClickMute
  assume i: "offerInv w"
  have "quiet w (step pf props ev w)" using ClickMute by (simp add: step_def)
  then show ?thesis using i quiet_inv quiet_scope by blast
next
  case ClickHangUp
  assume i: "offerInv w"
  have "quiet w (step pf props ev w)" using ClickHangUp by (simp add: step_def)
  then show ?thesis using i quiet_inv quiet_scope by blast
next
  case EffectDestructor
  assume i: "offerInv w"
  have "quiet w (step pf props ev w)" using EffectDestructor by (simp add: step_def)
  then show ?thesis using i quiet_inv quiet_scope by blast
next
  case (CallStatusEffectEv t)
  assume i: "offerInv w"
  have "quiet w (step pf props ev w)" using CallStatusEffectEv by (simp add: step_def)
  then show ?thesis using i quiet_inv quiet_scope by blast
next
  case TickEv
  assume i: "offerInv w"
  have "quiet w (step pf props ev w)" using TickEv by (simp add: step_def)
  then show ?thesis using i quiet_inv quiet_scope by blast
qed

lemma run_inv: "offerInv w \<Longrightarrow> offerInv (run pf props evs w) \<and> scope (run pf props evs w) = scope w"
proof (induction evs arbitrary: w)
  case Nil
  then show ?case by simp
next
  case (Cons ev evs)
  then show ?case using step_inv [of w pf props ev] by simp
qed

lemma opened_inv: "offerInv (opened pf props)"
  by (simp add: offerInv_def opened_def mounted_def initializeCall_def emit_def offersGuarded_def noOffer_def
      Cons_eq_append_conv)

lemma opened_scope: "s_props (scope (opened pf props)) = props"
  by (simp add: opened_def initializeCall_def emit_def current_scope_def)

section \<open>What the handlers add to the trace\<close>

lemma addIceCalls_append [simp]: "addIceCalls (xs @ ys) = addIceCalls xs @ addIceCalls ys"
  by (induction xs rule: addIceCalls.induct) simp_all

lemma addIceCalls_stops [simp]: "addIceCalls (map (\<lambda>t. StopTrack s) ts) = []"
  by (induction ts) simp_all

lemma count_append [simp]: "count P (xs @ ys) = count P xs + count P ys"
  by (simp add: count_def)

lemma count_Nil [simp]: "count P [] = 0"
  by (simp add: count_def)

lemma count_Cons [simp]: "count P (x # xs) = (if P x then 1 else 0) + count P xs"
  by (simp add: count_def)

lemma count_stops_hangup [simp]: "count isHangupSend (map (\<lambda>t. StopTrack s) ts) = 0"
  by (induction ts) simp_all

lemma count_stops_send [simp]: "count isSend (map (\<lambda>t. StopTrack s) ts) = 0"
  by (induction ts) simp_all

lemma trace_emit [simp]: "trace (emit es w) = trace w @ es"
  by (simp add: emit_def)

lemma cleanup_trace: "trace (cleanup pf sc w) = trace w @ released sc w"
  by (simp add: cleanup_def released_def Let_def emit_def split: option.splits)

lemma cleanup_fields [simp]:
  "callStatus (cleanup pf sc w) = Ended"
  "channelRef (cleanup pf sc w) = None"
  "localStream (cleanup pf sc w) = None"
  "peerConnection (cleanup pf sc w) = None"
  "callDuration (cleanup pf sc w) = 0"
  "callTimerRef (cleanup pf sc w) = callTimerRef w"
  "isMuted (cleanup pf sc w) = isMuted w"
  by (simp_all add: cleanup_def Let_def emit_def split: option.splits)

lemma handleEndCall_trace:
  "trace (handleEndCall pf sc w) =
     trace w @ (case channelRef w of None \<Rightarrow> [] | Some ch \<Rightarrow> [Send ch (signal sc EndCall)])
       @ released sc w @ [OnClose]
       @ (case channelRef w of None \<Rightarrow> [] | Some ch \<Rightarrow> sendLog pf (signal sc EndCall))"
  by (simp add: handleEndCall_def sendSignalingMessage_call_def sendSignalingMessage_settle_def sendLog_def
      cleanup_trace released_def emit_def Let_def split: option.splits SendResult.splits)

lemma handleEndCall_fields [simp]:
  "callStatus (handleEndCall pf sc w) = Ended"
  "channelRef (handleEndCall pf sc w) = None"
  "localStream (handleEndCall pf sc w) = None"
  "peerConnection (handleEndCall pf sc w) = None"
  "callDuration (handleEndCall pf sc w) = 0"
  "callTimerRef (handleEndCall pf sc w) = callTimerRef w"
  "isMuted (handleEndCall pf sc w) = isMuted w"
  by (simp_all add: handleEndCall_def sendSignalingMessage_call_def sendSignalingMessage_settle_def
      emit_def Let_def split: option.splits SendResult.splits)

lemma sendSignalingMessage_trace:
  "trace (sendSignalingMessage pf sc m w) =
     trace w @ (case channelRef w of None \<Rightarrow> [ConsoleError ChannelNotInitialized]
                | Some ch \<Rightarrow> Send ch (signal sc m) # sendLog pf (signal sc m))"
  by (simp add: sendSignalingMessage_def sendSignalingMessage_call_def sendSignalingMessage_settle_def sendLog_def
      emit_def split: option.splits SendResult.splits)

lemma sendSignalingMessage_callStatus [simp]:
  "callStatus (sendSignalingMessage pf sc m w) = callStatus w"
  by (simp add: sendSignalingMessage_def sendSignalingMessage_call_def sendSignalingMessage_settle_def
      emit_def split: option.splits SendResult.splits)

lemma addIce_released [simp]: "addIceCalls (released sc w) = []"
  by (simp add: released_def split: option.splits)

lemma addIce_sendLog [simp]: "addIceCalls (sendLog pf pl) = []"
  by (simp add: sendLog_def)

lemma addIce_onBroadcast:
  "addIceCalls (trace (onBroadcast pf sc p pl w)) =
     addIceCalls (trace w) @ receivedCandidates (currentUserId (s_props sc)) [pl]"
  by (simp add: onBroadcast_def onOffer_def onAnswer_def onRemoteCandidate_def processingFailed_def
      handleEndCall_trace sendSignalingMessage_trace Let_def split: Message.splits option.splits)

lemma receivedCandidates_Cons:
  "receivedCandidates me (pl # pls) = receivedCandidates me [pl] @ receivedCandidates me pls"
  by (simp split: Message.splits)

lemmas unfold_run =
  opened_def mounted_def initializeCall_def initializeCall_catch_def current_scope_def step_def
  onUserMedia_def onSubscribeStatus_def onSettleTimeout_def onBroadcast_def onOffer_def onAnswer_def
  onRemoteCandidate_def processingFailed_def ontrack_def onicecandidate_def
  oniceconnectionstatechange_def handleEndCall_def cleanup_def toggleMute_def toggleTrack_def stopTrack_def
  sendSignalingMessage_def sendSignalingMessage_call_def sendSignalingMessage_settle_def signal_def
  callStatusEffect_def clearCallTimer_def tick_def
  emit_def Let_def browser_def browserWith_def caller_def callee_def toBob_def toAlice_def topic_def microphone_def

lemma talking_eval:
  "callStatus talking = Connected" "channelRef talking = Some ''audio-call-chat-7''"
  "pc talking = Some 1" "localStream talking = Some 0"
  "s_localStream (scope talking) = None" "s_peerConnection (scope talking) = None"
  "s_props (scope talking) = callee"
  "callTimerRef talking = None"
  "streams talking 0 = [microphone]"
  "count isHangupSend (trace talking) = 0"
  by (simp_all add: talking_def unfold_run)

lemma count_released_hangup [simp]: "count isHangupSend (released sc w) = 0"
  by (simp add: released_def split: option.splits)

lemma count_sendLog_hangup [simp]: "count isHangupSend (sendLog pf pl) = 0"
  by (simp add: sendLog_def)

lemma handleEndCall_hangups:
  "count isHangupSend (trace (handleEndCall pf sc w)) =
     count isHangupSend (trace w) + (if channelRef w = None then 0 else 1)"
  by (simp add: handleEndCall_trace signal_def split: option.splits)

lemma handleEndCall_idle:
  assumes "s_localStream sc = None" "s_peerConnection sc = None" "channelRef w = None"
    "localStream w = None" "peerConnection w = None" "callStatus w = Ended" "callDuration w = 0"
  shows "handleEndCall pf sc w =
           emit ((case callTimerRef w of None \<Rightarrow> [] | Some t \<Rightarrow> [ClearInterval t]) @ [OnClose]) w"
  using assms
  by (cases w) (simp add: handleEndCall_def cleanup_def sendSignalingMessage_settle_def emit_def Let_def
      split: option.splits)

lemma onBroadcast_callStatus:
  "callStatus (onBroadcast pf sc p pl w) = (if p_to pl = currentUserId (s_props sc) \<and> p_message pl = EndCall then Ended else callStatus w)"
  by (simp add: onBroadcast_def onOffer_def onAnswer_def onRemoteCandidate_def processingFailed_def
      emit_def Let_def split: Message.splits option.splits)

lemma released_emit [simp]: "released sc (emit es w) = released sc w"
  by (simp add: released_def emit_def split: option.splits)

lemma channelRef_emit [simp]: "channelRef (emit es w) = channelRef w"
  by (simp add: emit_def)

lemma onSettleTimeout_callStatus: "callStatus (onSettleTimeout pf p w) = callStatus w"
  by (simp add: onSettleTimeout_def initializeCall_catch_def emit_def Let_def split: option.splits)

lemma count_sendLog_send [simp]: "count isSend (sendLog pf pl) = 0"
  by (simp add: sendLog_def)

lemma onSettleTimeout_sends: "count isSend (trace (onSettleTimeout pf p w)) \<le> count isSend (trace w) + 1"
  by (simp add: onSettleTimeout_def initializeCall_catch_def sendSignalingMessage_trace Let_def
      split: option.splits)

section \<open>The phases of \<open>initializeCall\<close> along a run\<close>

lemma run_snoc: "run pf props (evs @ [ev]) w = step pf props ev (run pf props evs w)"
  by (induction evs arbitrary: w) simp_all

lemma quiet_count: "quiet w w' \<Longrightarrow> count isOfferSend (trace w') = count isOfferSend (trace w)"
  by (auto simp: quiet_def noOffer_def count_def)

lemma send_init [simp]:
  "initPhase (sendSignalingMessage pf sc m w) = initPhase w"
  "pc (sendSignalingMessage pf sc m w) = pc w"
  by (simp_all add: sendSignalingMessage_def sendSignalingMessage_call_def sendSignalingMessage_settle_def
      emit_def split: option.splits SendResult.splits)

lemma cleanup_init [simp]:
  "initPhase (cleanup pf sc w) = initPhase w"
  "pc (cleanup pf sc w) = pc w"
  by (simp_all add: cleanup_def Let_def emit_def split: option.splits)

lemma handleEndCall_init [simp]:
  "initPhase (handleEndCall pf sc w) = initPhase w"
  "pc (handleEndCall pf sc w) = pc w"
  by (simp_all add: handleEndCall_def sendSignalingMessage_call_def sendSignalingMessage_settle_def
      emit_def Let_def split: option.splits SendResult.splits)

lemma onBroadcast_init [simp]:
  "initPhase (onBroadcast pf sc p pl w) = initPhase w"
  "pc (onBroadcast pf sc p pl w) = pc w"
  by (simp_all add: onBroadcast_def onOffer_def onAnswer_def onRemoteCandidate_def processingFailed_def
      emit_def Let_def split: Message.splits option.splits)

lemma ontrack_init [simp]:
  "initPhase (ontrack w) = initPhase w" "pc (ontrack w) = pc w"
  by (simp_all add: ontrack_def emit_def)

lemma onicecandidate_init [simp]:
  "initPhase (onicecandidate pf sc c w) = initPhase w" "pc (onicecandidate pf sc c w) = pc w"
  by (simp_all add: onicecandidate_def split: option.splits)

lemma oniceconnectionstatechange_init [simp]:
  "initPhase (oniceconnectionstatechange pf sc st w) = initPhase w"
  "pc (oniceconnectionstatechange pf sc st w) = pc w"
  by (simp_all add: oniceconnectionstatechange_def emit_def)

lemma toggleMute_init [simp]:
  "initPhase (toggleMute sc w) = initPhase w" "pc (toggleMute sc w) = pc w"
  by (simp_all add: toggleMute_def split: option.splits)

lemma callStatusEffect_init [simp]:
  "initPhase (callStatusEffect t w) = initPhase w" "pc (callStatusEffect t w) = pc w"
  by (simp_all add: callStatusEffect_def clearCallTimer_def Let_def emit_def split: option.splits)

lemma tick_init [simp]:
  "initPhase (tick w) = initPhase w" "pc (tick w) = pc w"
  by (simp_all add: tick_def)

lemma onUserMedia_init:
  "initPhase (onUserMedia pf res w) =
     (if initPhase w = AwaitingMedia
      then (case res of None \<Rightarrow> Finished | Some tracks \<Rightarrow> AwaitingSubscribed)
      else initPhase w)"
  "pc (onUserMedia pf res w) =
     (if initPhase w = AwaitingMedia
      then (case res of None \<Rightarrow> pc w | Some tracks \<Rightarrow> Some (Suc (nextRef w)))
      else pc w)"
  by (simp_all add: onUserMedia_def initializeCall_catch_def emit_def Let_def split: option.splits)

lemma onSubscribeStatus_init:
  "initPhase (onSubscribeStatus st w) =
     (if st = SUBSCRIBED \<and> initPhase w = AwaitingSubscribed
      then (if isInitiator (s_props (scope w)) then AwaitingSettle else Finished)
      else initPhase w)"
  "pc (onSubscribeStatus st w) = pc w"
  by (simp_all add: onSubscribeStatus_def emit_def Let_def)

lemma onSubscribeStatus_trace:
  "trace (onSubscribeStatus st w) =
     trace w @ (if st = SUBSCRIBED
                then ResolveSubscribed #
                     (if initPhase w = AwaitingSubscribed \<and> isInitiator (s_props (scope w))
                      then [SetTimeout 1000] else [])
                else [])"
  by (simp add: onSubscribeStatus_def emit_def Let_def)

lemma onSettleTimeout_init:
  "initPhase (onSettleTimeout pf p w) = (if initPhase w = AwaitingSettle then Finished else initPhase w)"
  "pc (onSettleTimeout pf p w) = pc w"
  by (simp_all add: onSettleTimeout_def initializeCall_catch_def emit_def Let_def split: option.splits)

lemma onSettleTimeout_idle: "initPhase w \<noteq> AwaitingSettle \<Longrightarrow> onSettleTimeout pf p w = w"
  by (simp add: onSettleTimeout_def)

lemma step_initPhase:
  "initPhase (step pf props ev w) =
     (case ev of
        UserMedia res \<Rightarrow>
          (if initPhase w = AwaitingMedia
           then (case res of None \<Rightarrow> Finished | Some tracks \<Rightarrow> AwaitingSubscribed)
           else initPhase w)
      | SubscribeStatusEv st \<Rightarrow>
          (if pc w \<noteq> None \<and> st = SUBSCRIBED \<and> initPhase w = AwaitingSubscribed
           then (if isInitiator (s_props (scope w)) then AwaitingSettle else Finished)
           else initPhase w)
      | SettleTimeout \<Rightarrow>
          (if pc w \<noteq> None \<and> initPhase w = AwaitingSettle then Finished else initPhase w)
      | _ \<Rightarrow> initPhase w)"
  by (cases ev)
     (simp_all add: step_def onUserMedia_init onSubscribeStatus_init onSettleTimeout_init
        split: option.splits)

lemma step_pc:
  "pc (step pf props ev w) =
     (case ev of
        UserMedia res \<Rightarrow>
          (if initPhase w = AwaitingMedia
           then (case res of None \<Rightarrow> pc w | Some tracks \<Rightarrow> Some (Suc (nextRef w)))
           else pc w)
      | _ \<Rightarrow> pc w)"
  by (cases ev)
     (simp_all add: step_def onUserMedia_init onSubscribeStatus_init onSettleTimeout_init
        split: option.splits)

lemma step_pcInv: "pcInv w \<Longrightarrow> pcInv (step pf props ev w)"
  unfolding pcInv_def step_initPhase step_pc
  by (cases ev) (simp_all split: option.splits if_splits)

lemma step_enters_settle:
  assumes "initPhase (step pf props ev w) = AwaitingSettle" and "initPhase w \<noteq> AwaitingSettle"
  shows "ev = SubscribeStatusEv SUBSCRIBED
         \<and> trace (step pf props ev w) = trace w @ [ResolveSubscribed, SetTimeout 1000]"
proof -
  have e: "ev = SubscribeStatusEv SUBSCRIBED" and p: "pc w \<noteq> None"
    and a: "initPhase w = AwaitingSubscribed" and i: "isInitiator (s_props (scope w))"
    using assms unfolding step_initPhase
    by (cases ev; simp split: option.splits if_splits)+
  show ?thesis
    using e p a i by (auto simp: step_def onSubscribeStatus_trace)
qed

lemma step_stays_settle:
  assumes "initPhase (step pf props ev w) = AwaitingSettle" and "pc w \<noteq> None"
  shows "ev \<noteq> SettleTimeout"
  using assms unfolding step_initPhase by (cases ev) (simp_all split: if_splits)

lemma step_offers:
  "count isOfferSend (trace (step pf props ev w)) = count isOfferSend (trace w)
   \<or> (ev = SettleTimeout \<and> initPhase w = AwaitingSettle)"
proof (cases ev)
  case (UserMedia res)
  have "quiet w (step pf props ev w)" using UserMedia by (simp add: step_def)
  then show ?thesis using quiet_count by blast
next
  case (SubscribeStatusEv st)
  then show ?thesis
    by (simp add: step_def onSubscribeStatus_trace split: option.splits)
next
  case SettleTimeout
  then show ?thesis
    by (cases "initPhase w = AwaitingSettle") (simp_all add: step_def onSettleTimeout_idle split: option.splits)
next
  case (Broadcast pl)
  have "quiet w (step pf props ev w)" using Broadcast by (simp add: step_def split: option.splits)
  then show ?thesis using quiet_count by blast
next
  case TrackEv
  have "quiet w (step pf props ev w)" using TrackEv by (simp add: step_def split: option.splits)
  then show ?thesis using quiet_count by blast
next
  case (LocalCandidate c)
  have "quiet w (step pf props ev w)" using LocalCandidate by (simp add: step_def split: option.splits)
  then show ?thesis using quiet_count by blast
next
  case (IceStateChange st)
  have "quiet w (step pf props ev w)" using IceStateChange by (simp add: step_def split: option.splits)
  then show ?thesis using quiet_count by blast
next
  case ClickMute
  have "quiet w (step pf props ev w)" using ClickMute by (simp add: step_def)
  then show ?thesis using quiet_count by blast
next
  case ClickHangUp
  have "quiet w (step pf props ev w)" using ClickHangUp by (simp add: step_def)
  then show ?thesis using quiet_count by blast
next
  case EffectDestructor
  have "quiet w (step pf props ev w)" using EffectDestructor by (simp add: step_def)
  then show ?thesis using quiet_count by blast
next
  case (CallStatusEffectEv t)
  have "quiet w (step pf props ev w)" using CallStatusEffectEv by (simp add: step_def)
  then show ?thesis using quiet_count by blast
next
  case TickEv
  have "quiet w (step pf props ev w)" using TickEv by (simp add: step_def)
  then show ?thesis using quiet_count by blast
qed

lemma step_sendsOffer:
  "sendsOffer pf props ev w \<Longrightarrow> ev = SettleTimeout \<and> initPhase w = AwaitingSettle"
  using step_offers [of pf props ev w] by (auto simp: sendsOffer_def)

lemma opened_init: "initPhase (opened pf props) = AwaitingMedia" "pc (opened pf props) = None"
  "trace (opened pf props) = [GetUserMedia]"
  by (simp_all add: opened_def mounted_def initializeCall_def emit_def)

lemma run_history:
  "pcInv (run pf props pre (opened pf props)) \<and>
   (initPhase (run pf props pre (opened pf props)) = AwaitingSettle \<longrightarrow> timerRuns pf props pre)"
proof (induction pre rule: rev_induct)
  case Nil
  show ?case by (simp add: pcInv_def opened_init)
next
  case (snoc ev pre)
  let ?w = "run pf props pre (opened pf props)"
  have r: "run pf props (pre @ [ev]) (opened pf props) = step pf props ev ?w"
    by (rule run_snoc)
  have pi: "pcInv (step pf props ev ?w)"
    using snoc.IH step_pcInv by blast
  have "timerRuns pf props (pre @ [ev])" if s: "initPhase (step pf props ev ?w) = AwaitingSettle"
  proof (cases "initPhase ?w = AwaitingSettle")
    case True
    then obtain a b where ab: "pre = a @ SubscribeStatusEv SUBSCRIBED # b" "SettleTimeout \<notin> set b"
      "trace (run pf props (a @ [SubscribeStatusEv SUBSCRIBED]) (opened pf props)) =
         trace (run pf props a (opened pf props)) @ [ResolveSubscribed, SetTimeout 1000]"
      using snoc.IH unfolding timerRuns_def by blast
    have "pc ?w \<noteq> None" using snoc.IH True by (simp add: pcInv_def)
    then have "ev \<noteq> SettleTimeout" using s step_stays_settle by blast
    then have "pre @ [ev] = a @ SubscribeStatusEv SUBSCRIBED # (b @ [ev])" "SettleTimeout \<notin> set (b @ [ev])"
      using ab by simp_all
    then show ?thesis using ab(3) unfolding timerRuns_def by blast
  next
    case False
    then have e: "ev = SubscribeStatusEv SUBSCRIBED"
      and t: "trace (step pf props ev ?w) = trace ?w @ [ResolveSubscribed, SetTimeout 1000]"
      using s step_enters_settle by blast+
    have "pre @ [ev] = pre @ SubscribeStatusEv SUBSCRIBED # []" "SettleTimeout \<notin> set []"
      using e by simp_all
    moreover have "trace (run pf props (pre @ [SubscribeStatusEv SUBSCRIBED]) (opened pf props)) =
         trace (run pf props pre (opened pf props)) @ [ResolveSubscribed, SetTimeout 1000]"
      using t e r by simp
    ultimately show ?thesis unfolding timerRuns_def by blast
  qed
  then show ?case using pi r by simp
qed

lemma onSettleTimeout_offers:
  "count isOfferSend (trace (onSettleTimeout pf p w)) \<le> count isOfferSend (trace w) + 1"
  by (simp add: onSettleTimeout_def initializeCall_catch_def sendSignalingMessage_trace sendLog_def Let_def
      split: option.splits)

lemma step_offeredOnce: "offeredOnce w \<Longrightarrow> offeredOnce (step pf props ev w)"
proof -
  assume o: "offeredOnce w"
  consider (same) "count isOfferSend (trace (step pf props ev w)) = count isOfferSend (trace w)"
    | (settle) "ev = SettleTimeout" "initPhase w = AwaitingSettle"
    using step_offers by blast
  then show ?thesis
  proof cases
    case same
    have "initPhase w = Finished \<Longrightarrow> initPhase (step pf props ev w) = Finished"
      unfolding step_initPhase by (cases ev) (simp_all split: option.splits)
    then show ?thesis using o same unfolding offeredOnce_def by auto
  next
    case settle
    show ?thesis
    proof (cases "pc w")
      case None
      then show ?thesis using o settle by (simp add: step_def)
    next
      case (Some p)
      have "count isOfferSend (trace w) = 0" using o settle by (simp add: offeredOnce_def)
      then have "count isOfferSend (trace (onSettleTimeout pf p w)) \<le> 1"
        using onSettleTimeout_offers [of pf p w] by simp
      then show ?thesis
        using Some settle by (simp add: offeredOnce_def step_def onSettleTimeout_init)
    qed
  qed
qed

lemma run_offeredOnce: "offeredOnce w \<Longrightarrow> offeredOnce (run pf props evs w)"
  by (induction evs arbitrary: w) (simp_all add: step_offeredOnce)

lemma opened_offeredOnce: "offeredOnce (opened pf props)"
  by (simp add: offeredOnce_def opened_init)

section \<open>Claims\<close>

subsection \<open>C1\<close>

text \<open>
  C1, as amended. The component has no buffer of pending candidates. Every
  candidate message addressed to the local participant is handed to
  \<open>addIceCandidate\<close> of the connection at once, whether or not a remote
  description has been applied: over any sequence of delivered payloads, the
  \<open>addIceCandidate\<close> calls in the trace are exactly the received candidates,
  each once and in arrival order, and nothing is applied again later. A
  candidate that the connection rejects is logged by the handler's \<open>catch\<close>.
\<close>

theorem C1_candidates_applied_on_arrival:
  "addIceCalls (trace (deliver pf sc p pls w)) =
     addIceCalls (trace w) @ receivedCandidates (currentUserId (s_props sc)) pls
   \<and> (p_to pl = currentUserId (s_props sc) \<and> p_message pl = IceCandidate c \<longrightarrow>
        trace (onBroadcast pf sc p pl w) =
          trace w @ AddIceCandidate p c #
            (case pcAddIceCandidate pf (conns w p) c of
               None \<Rightarrow> [ConsoleError ErrorProcessingSignalingMessage]
             | Some c1 \<Rightarrow> []))"
proof -
  have 1: "addIceCalls (trace (deliver pf sc p pls w)) =
             addIceCalls (trace w) @ receivedCandidates (currentUserId (s_props sc)) pls"
  proof (induction pls arbitrary: w)
    case Nil
    show ?case by simp
  next
    case (Cons x xs)
    have "addIceCalls (trace (deliver pf sc p (x # xs) w)) =
            addIceCalls (trace (onBroadcast pf sc p x w))
              @ receivedCandidates (currentUserId (s_props sc)) xs"
      using Cons.IH by simp
    also have "\<dots> = addIceCalls (trace w) @ receivedCandidates (currentUserId (s_props sc)) [x]
                      @ receivedCandidates (currentUserId (s_props sc)) xs"
      by (simp add: addIce_onBroadcast)
    finally show ?case
      using receivedCandidates_Cons [of "currentUserId (s_props sc)" x xs] by simp
  qed
  have 2: "p_to pl = currentUserId (s_props sc) \<and> p_message pl = IceCandidate c \<longrightarrow>
        trace (onBroadcast pf sc p pl w) =
          trace w @ AddIceCandidate p c #
            (case pcAddIceCandidate pf (conns w p) c of
               None \<Rightarrow> [ConsoleError ErrorProcessingSignalingMessage]
             | Some c1 \<Rightarrow> [])"
    by (simp add: onBroadcast_def onRemoteCandidate_def processingFailed_def emit_def Let_def
        split: option.splits)
  from 1 2 show ?thesis by blast
qed

theorem C1_witness:
  "addIceCalls (trace (deliver (browser True) (current_scope callee (mounted (browser True) callee)) 1
       [toBob (IceCandidate ''cand-1''), toAlice (IceCandidate ''cand-x''), toBob (Offer ''sdp-remote''),
        toBob (IceCandidate ''cand-2'')]
       (mounted (browser True) callee)))
     = [''cand-1'', ''cand-2'']
   \<and> p_to (toBob (IceCandidate ''cand-1''))
       = currentUserId (s_props (current_scope callee (mounted (browser True) callee)))
   \<and> p_message (toBob (IceCandidate ''cand-1'')) = IceCandidate ''cand-1''
   \<and> trace (onBroadcast (browser True) (current_scope callee (mounted (browser True) callee)) 1
         (toBob (IceCandidate ''cand-1'')) (mounted (browser True) callee))
       = [AddIceCandidate 1 ''cand-1'', ConsoleError ErrorProcessingSignalingMessage]"
  using C1_candidates_applied_on_arrival [of "browser True"
       "current_scope callee (mounted (browser True) callee)" 1
       "[toBob (IceCandidate ''cand-1''), toAlice (IceCandidate ''cand-x''), toBob (Offer ''sdp-remote''),
        toBob (IceCandidate ''cand-2'')]" "mounted (browser True) callee"
       "toBob (IceCandidate ''cand-1'')" "''cand-1''"]
  by (simp add: mounted_def current_scope_def callee_def toBob_def toAlice_def browser_def browserWith_def)

text \<open>
  C1 as stated fails. A responder receives a candidate and then the offer: the
  candidate goes to \<open>addIceCandidate\<close> before any remote description, the
  connection rejects it, the rejection is logged, and after the offer has been
  applied the connection holds the remote description and no candidate.
\<close>

theorem C1_counterexample:
  "remoteDescription (conns (run (browser True) callee
       [UserMedia (Some [microphone]), SubscribeStatusEv SUBSCRIBED,
        Broadcast (toBob (IceCandidate ''cand-1'')), Broadcast (toBob (Offer ''sdp-remote''))]
       (opened (browser True) callee)) 1) = Some ''sdp-remote''
   \<and> remoteCandidates (conns (run (browser True) callee
       [UserMedia (Some [microphone]), SubscribeStatusEv SUBSCRIBED,
        Broadcast (toBob (IceCandidate ''cand-1'')), Broadcast (toBob (Offer ''sdp-remote''))]
       (opened (browser True) callee)) 1) = []
   \<and> trace (run (browser True) callee
       [UserMedia (Some [microphone]), SubscribeStatusEv SUBSCRIBED,
        Broadcast (toBob (IceCandidate ''cand-1'')), Broadcast (toBob (Offer ''sdp-remote''))]
       (opened (browser True) callee))
     = [GetUserMedia, NewPeerConnection 1, AddTrack 1 microphone, Subscribe ''audio-call-chat-7'',
        ResolveSubscribed,
        AddIceCandidate 1 ''cand-1'', ConsoleError ErrorProcessingSignalingMessage,
        SetRemoteDescription 1 ''sdp-remote'', CreateAnswer 1, SetLocalDescription 1 ''sdp-answer'',
        Send ''audio-call-chat-7'' (toAlice (Answer ''sdp-answer''))]"
  by (simp add: unfold_run)

subsection \<open>C2\<close>

text \<open>
  C2. The role of a session is fixed when it is created and never changes, and
  only the initiator sends an offer. Along every run of an opened component
  the \<open>isInitiator\<close> that its handlers see is the one it was opened with; a
  responder's trace has no send of an offer; and the broadcast handler, in any
  state and for any payload, adds no send of an offer.
\<close>

theorem C2_role_fixed_and_only_initiator_offers:
  "isInitiator (s_props (scope (run pf props evs (opened pf props)))) = isInitiator props
   \<and> (\<not> isInitiator props \<longrightarrow> count isOfferSend (trace (run pf props evs (opened pf props))) = 0)
   \<and> count isOfferSend (trace (onBroadcast pf sc p pl w)) = count isOfferSend (trace w)"
proof -
  have r: "offerInv (run pf props evs (opened pf props))"
    and s: "scope (run pf props evs (opened pf props)) = scope (opened pf props)"
    using run_inv [OF opened_inv, of pf props evs pf props] by simp_all
  have 1: "isInitiator (s_props (scope (run pf props evs (opened pf props)))) = isInitiator props"
    by (simp add: s opened_scope)
  have 2: "\<not> isInitiator props \<longrightarrow> count isOfferSend (trace (run pf props evs (opened pf props))) = 0"
    using r s by (simp add: offerInv_def opened_scope noOffer_def count_def)
  have "quiet w (onBroadcast pf sc p pl w)" by simp
  then have 3: "count isOfferSend (trace (onBroadcast pf sc p pl w)) = count isOfferSend (trace w)"
    by (auto simp: quiet_def noOffer_def count_def)
  from 1 2 3 show ?thesis by blast
qed

theorem C2_witness:
  "\<not> isInitiator callee \<and>
   count isOfferSend (trace (run (browser True) callee
      [UserMedia (Some [microphone]), SubscribeStatusEv SUBSCRIBED, Broadcast (toBob (Offer ''sdp-remote''))]
      (opened (browser True) callee))) = 0"
  using C2_role_fixed_and_only_initiator_offers [of "browser True" callee
      "[UserMedia (Some [microphone]), SubscribeStatusEv SUBSCRIBED, Broadcast (toBob (Offer ''sdp-remote''))]"]
  by (simp add: callee_def)

subsection \<open>C3\<close>

text \<open>
  C3, as amended. A payload whose \<open>to\<close> is not the local participant is
  dropped: the handler returns the state as it was, trace included. There is
  no session identifier: what else a payload carries makes no difference to
  the handler.
\<close>

theorem C3_foreign_recipient_ignored:
  "(p_to pl \<noteq> currentUserId (s_props sc) \<longrightarrow> onBroadcast pf sc p pl w = w)
   \<and> onBroadcast pf sc p (pl\<lparr>p_extra := x\<rparr>) w = onBroadcast pf sc p pl w"
  by (simp add: onBroadcast_def)

theorem C3_witness:
  "p_to (toAlice EndCall) \<noteq> currentUserId (s_props (scope talking))
   \<and> onBroadcast (browser True) (scope talking) 1 (toAlice EndCall) talking = talking"
  using C3_foreign_recipient_ignored [of "toAlice EndCall" "scope talking" "browser True" 1 talking]
  by (simp add: talking_eval toAlice_def callee_def)

text \<open>
  C3 as stated fails. An end-call left over from an earlier call on the same
  topic, tagged with that call's identifier and addressed to the local
  participant, ends the connected call.
\<close>

theorem C3_counterexample:
  "callStatus talking = Connected
   \<and> callStatus (step (browser True) callee (Broadcast staleHangup) talking) = Ended
   \<and> channelRef (step (browser True) callee (Broadcast staleHangup) talking) = None"
  by (simp add: talking_eval step_def onBroadcast_def staleHangup_def callee_def)

subsection \<open>C4\<close>

text \<open>
  C4, as amended. Two calls of \<open>handleEndCall\<close> in a row send one end-call
  if the channel is attached at the first call and none otherwise, whatever
  scope the second call runs in. Run in the scope of the re-rendered
  component, the second call releases nothing and changes nothing: it clears
  the timer again if one is held and calls \<open>onClose\<close> again.
\<close>

theorem C4_second_hangup_is_idle:
  "count isHangupSend (trace (handleEndCall pf sc2 (handleEndCall pf sc w)))
     = count isHangupSend (trace w) + (if channelRef w = None then 0 else 1)
   \<and> handleEndCall pf (current_scope props (handleEndCall pf sc w)) (handleEndCall pf sc w)
     = emit ((case callTimerRef w of None \<Rightarrow> [] | Some t \<Rightarrow> [ClearInterval t]) @ [OnClose])
         (handleEndCall pf sc w)
   \<and> count isRelease (trace (handleEndCall pf (current_scope props (handleEndCall pf sc w))
                                (handleEndCall pf sc w)))
     = count isRelease (trace (handleEndCall pf sc w))"
proof -
  let ?w1 = "handleEndCall pf sc w"
  have 1: "count isHangupSend (trace (handleEndCall pf sc2 ?w1))
             = count isHangupSend (trace w) + (if channelRef w = None then 0 else 1)"
    by (simp add: handleEndCall_hangups)
  have 2: "handleEndCall pf (current_scope props ?w1) ?w1
             = emit ((case callTimerRef w of None \<Rightarrow> [] | Some t \<Rightarrow> [ClearInterval t]) @ [OnClose]) ?w1"
    using handleEndCall_idle [of "current_scope props ?w1" ?w1 pf]
    by (simp add: current_scope_def)
  have 3: "count isRelease (trace (handleEndCall pf (current_scope props ?w1) ?w1))
             = count isRelease (trace ?w1)"
    by (simp add: 2 split: option.splits)
  from 1 2 3 show ?thesis by blast
qed

theorem C4_witness:
  "count isHangupSend (trace (handleEndCall (browser True) (current_scope callee talking)
       (handleEndCall (browser True) (current_scope callee talking) talking))) = 1"
  using C4_second_hangup_is_idle [of "browser True" "current_scope callee talking"
      "current_scope callee talking" talking callee]
  by (simp add: talking_eval)

text \<open>
  C4 as stated fails. Before the subscription is confirmed \<open>channelRef\<close> is
  empty, and hanging up twice sends no end-call at all.
\<close>

theorem C4_counterexample:
  "count isHangupSend (trace (run (browser True) caller
       [UserMedia (Some [microphone]), ClickHangUp, ClickHangUp] (opened (browser True) caller))) = 0
   \<and> channelRef (run (browser True) caller
       [UserMedia (Some [microphone])] (opened (browser True) caller)) = None"
  by (simp add: unfold_run)

subsection \<open>C5\<close>

text \<open>
  C5. The initiator never sends its offer before its subscription is
  confirmed and the settle delay has been awaited. In every run of an opened
  component, a step that sends an offer is the step of the expiry of the
  settle timer, in the initiator's component, and no offer was sent before
  it. The events before it hold a \<open>SUBSCRIBED\<close> status whose step resolved
  the subscribe promise and started the timer of 1000 milliseconds, with no
  expiry of the timer between that status and the step that sends the offer.
\<close>

theorem C5_offer_after_subscription_and_settle_delay:
  assumes "sendsOffer pf props ev (run pf props pre (opened pf props))"
  shows "ev = SettleTimeout
         \<and> isInitiator props
         \<and> settled (trace (run pf props pre (opened pf props)))
         \<and> count isOfferSend (trace (run pf props pre (opened pf props))) = 0
         \<and> (\<exists>a b. pre = a @ SubscribeStatusEv SUBSCRIBED # b \<and> SettleTimeout \<notin> set b \<and>
               trace (run pf props (a @ [SubscribeStatusEv SUBSCRIBED]) (opened pf props)) =
                 trace (run pf props a (opened pf props)) @ [ResolveSubscribed, SetTimeout 1000])"
proof -
  let ?w = "run pf props pre (opened pf props)"
  have e: "ev = SettleTimeout" and a: "initPhase ?w = AwaitingSettle"
    using assms step_sendsOffer by blast+
  have i: "offerInv ?w" and s: "scope ?w = scope (opened pf props)"
    using run_inv [OF opened_inv, of pf props pre pf props] by simp_all
  have 1: "isInitiator props" and 2: "settled (trace ?w)"
    using i a s by (simp_all add: offerInv_def opened_scope)
  have 3: "count isOfferSend (trace ?w) = 0"
    using run_offeredOnce [OF opened_offeredOnce, of pf props pre pf props] a
    by (simp add: offeredOnce_def)
  have 4: "timerRuns pf props pre"
    using run_history [of pf props pre] a by simp
  from e 1 2 3 4 show ?thesis unfolding timerRuns_def by blast
qed

theorem C5_witness:
  "sendsOffer (browser True) caller SettleTimeout
     (run (browser True) caller [UserMedia (Some [microphone]), SubscribeStatusEv SUBSCRIBED]
        (opened (browser True) caller))
   \<and> isInitiator caller
   \<and> settled (trace (run (browser True) caller
        [UserMedia (Some [microphone]), SubscribeStatusEv SUBSCRIBED] (opened (browser True) caller)))
   \<and> (\<exists>a b. [UserMedia (Some [microphone]), SubscribeStatusEv SUBSCRIBED]
                = a @ SubscribeStatusEv SUBSCRIBED # b \<and> SettleTimeout \<notin> set b \<and>
               trace (run (browser True) caller (a @ [SubscribeStatusEv SUBSCRIBED]) (opened (browser True) caller)) =
                 trace (run (browser True) caller a (opened (browser True) caller))
                   @ [ResolveSubscribed, SetTimeout 1000])"
proof -
  have h: "sendsOffer (browser True) caller SettleTimeout
     (run (browser True) caller [UserMedia (Some [microphone]), SubscribeStatusEv SUBSCRIBED]
        (opened (browser True) caller))"
    by (simp add: sendsOffer_def unfold_run)
  from C5_offer_after_subscription_and_settle_delay [OF h] h show ?thesis by blast
qed

subsection \<open>C6\<close>

text \<open>
  C6, as amended. The component has one terminal status, \<open>Ended\<close>. Once it
  is reached, no signaling message (offer, answer, candidate, end-call or any
  other) and no connectivity change other than to \<open>connected\<close> changes it;
  a change to \<open>connected\<close> makes the status \<open>Connected\<close>.
\<close>

theorem C6_ended_stays_under_signaling:
  "callStatus w = Ended \<Longrightarrow>
     callStatus (onBroadcast pf sc p pl w) = Ended
     \<and> (st \<noteq> IceConnected \<longrightarrow> callStatus (oniceconnectionstatechange pf sc st w) = Ended)
     \<and> callStatus (oniceconnectionstatechange pf sc IceConnected w) = Connected"
  by (simp add: onBroadcast_callStatus oniceconnectionstatechange_def)

theorem C6_witness:
  "callStatus (step (browser True) callee (Broadcast (toBob EndCall)) talking) = Ended
   \<and> callStatus (onBroadcast (browser True) (scope talking) 1 (toBob (Offer ''sdp-late''))
                  (step (browser True) callee (Broadcast (toBob EndCall)) talking)) = Ended
   \<and> IceFailed \<noteq> IceConnected
   \<and> callStatus (oniceconnectionstatechange (browser True) (scope talking) IceFailed
                  (step (browser True) callee (Broadcast (toBob EndCall)) talking)) = Ended
   \<and> callStatus (oniceconnectionstatechange (browser True) (scope talking) IceConnected
                  (step (browser True) callee (Broadcast (toBob EndCall)) talking)) = Connected"
proof -
  have e: "callStatus (step (browser True) callee (Broadcast (toBob EndCall)) talking) = Ended"
    by (simp add: step_def talking_eval onBroadcast_callStatus toBob_def callee_def)
  from C6_ended_stays_under_signaling [OF e, of "browser True" "scope talking" 1
      "toBob (Offer ''sdp-late'')" IceFailed] e
  show ?thesis by simp
qed

text \<open>
  C6 as stated fails. After a remote end-call has ended the call, a
  connectivity change to \<open>connected\<close> sets the status back to \<open>Connected\<close>:
  the handler has no guard on the ended status.
\<close>

theorem C6_counterexample:
  "callStatus (run (browser True) callee [Broadcast (toBob EndCall)] talking) = Ended
   \<and> callStatus (run (browser True) callee
        [Broadcast (toBob EndCall), IceStateChange IceConnected] talking) = Connected"
  by (simp add: talking_def unfold_run)

subsection \<open>C7\<close>

text \<open>
  C7, as amended. When the connection reports \<open>failed\<close> or \<open>disconnected\<close>
  the handler shows the connection-lost toast and runs \<open>handleEndCall\<close>: an
  end-call is sent to the peer if the channel is attached, \<open>cleanup\<close> and
  \<open>onClose\<close> run, the channel reference is emptied and the status becomes
  \<open>Ended\<close>.
\<close>

theorem C7_connection_lost_ends_call_with_hangup:
  "st = IceFailed \<or> st = IceDisconnected \<Longrightarrow>
     callStatus (oniceconnectionstatechange pf sc st w) = Ended
     \<and> channelRef (oniceconnectionstatechange pf sc st w) = None
     \<and> trace (oniceconnectionstatechange pf sc st w) =
         trace w @ [Toast ConnectionLost]
           @ (case channelRef w of None \<Rightarrow> [] | Some ch \<Rightarrow> [Send ch (signal sc EndCall)])
           @ released sc w @ [OnClose]
           @ (case channelRef w of None \<Rightarrow> [] | Some ch \<Rightarrow> sendLog pf (signal sc EndCall))"
  by (auto simp: oniceconnectionstatechange_def handleEndCall_trace)

theorem C7_witness:
  "(IceFailed = IceFailed \<or> IceFailed = IceDisconnected)
   \<and> callStatus (oniceconnectionstatechange (browser True) (scope talking) IceFailed talking) = Ended
   \<and> trace (oniceconnectionstatechange (browser True) (scope talking) IceFailed talking) =
       trace talking @ [Toast ConnectionLost, Send ''audio-call-chat-7'' (toAlice EndCall),
                        RemoveChannel ''audio-call-chat-7'', OnClose]"
  using C7_connection_lost_ends_call_with_hangup [of IceFailed "browser True" "scope talking" talking]
  by (simp add: talking_eval released_def sendLog_def signal_def toAlice_def callee_def browser_def browserWith_def)

text \<open>
  C7 as stated fails. In a connected call with its channel attached, the
  report \<open>failed\<close> makes the component send an end-call to the peer.
\<close>

theorem C7_counterexample:
  "callStatus talking = Connected
   \<and> count isHangupSend (trace talking) = 0
   \<and> count isHangupSend (trace (step (browser True) callee (IceStateChange IceFailed) talking)) = 1
   \<and> callStatus (step (browser True) callee (IceStateChange IceFailed) talking) = Ended"
  by (simp add: talking_def unfold_run)

subsection \<open>C8\<close>

text \<open>
  C8, as amended. A failed send is never fatal and never retried, whatever
  the message, the offer included. With a channel, \<open>sendSignalingMessage\<close>
  makes one send and leaves the state as it was; only a send that throws or
  whose promise rejects is logged, a send that resolves (to \<open>'error'\<close> or
  \<open>'timed out'\<close> as well as to \<open>'ok'\<close>) leaves no log line. Without a
  channel nothing is sent and that is logged. The continuation of
  \<open>initializeCall\<close> that sends the offer makes at most one send and leaves
  the call status alone, and a whole run sends at most one offer.
\<close>

theorem C8_send_failure_never_retried:
  "(channelRef w = Some ch \<longrightarrow>
      sendSignalingMessage pf sc m w =
        emit (Send ch (signal sc m) #
              (if channelSend pf (signal sc m) = Throws
               then [ConsoleError ErrorSendingSignalingMessage] else [])) w)
   \<and> (channelRef w = None \<longrightarrow>
      sendSignalingMessage pf sc m w = emit [ConsoleError ChannelNotInitialized] w)
   \<and> callStatus (onSettleTimeout pf p w) = callStatus w
   \<and> count isSend (trace (onSettleTimeout pf p w)) \<le> count isSend (trace w) + 1
   \<and> count isOfferSend (trace (run pf props evs (opened pf props))) \<le> 1"
proof -
  have 1: "channelRef w = Some ch \<longrightarrow>
      sendSignalingMessage pf sc m w =
        emit (Send ch (signal sc m) #
              (if channelSend pf (signal sc m) = Throws
               then [ConsoleError ErrorSendingSignalingMessage] else [])) w"
    by (simp add: sendSignalingMessage_def sendSignalingMessage_call_def sendSignalingMessage_settle_def
        emit_def split: SendResult.splits)
  have 2: "channelRef w = None \<longrightarrow>
      sendSignalingMessage pf sc m w = emit [ConsoleError ChannelNotInitialized] w"
    by (simp add: sendSignalingMessage_def sendSignalingMessage_call_def sendSignalingMessage_settle_def)
  have 3: "callStatus (onSettleTimeout pf p w) = callStatus w"
    by (rule onSettleTimeout_callStatus)
  have 4: "count isSend (trace (onSettleTimeout pf p w)) \<le> count isSend (trace w) + 1"
    by (rule onSettleTimeout_sends)
  have 5: "count isOfferSend (trace (run pf props evs (opened pf props))) \<le> 1"
    using run_offeredOnce [OF opened_offeredOnce, of pf props evs pf props]
    by (simp add: offeredOnce_def)
  from 1 2 3 4 5 show ?thesis by blast
qed

theorem C8_witness:
  "channelRef (offering (Resolves SendError)) = Some ''audio-call-chat-7''
   \<and> sendSignalingMessage (browserWith (Resolves SendError)) (scope (offering (Resolves SendError)))
         (Offer ''sdp-offer'') (offering (Resolves SendError))
       = emit [Send ''audio-call-chat-7'' (toBob (Offer ''sdp-offer''))] (offering (Resolves SendError))
   \<and> count isOfferSend (trace (run (browserWith (Resolves SendError)) caller
         [UserMedia (Some [microphone]), SubscribeStatusEv SUBSCRIBED, SettleTimeout, SettleTimeout]
         (opened (browserWith (Resolves SendError)) caller))) \<le> 1"
proof -
  have c: "channelRef (offering (Resolves SendError)) = Some ''audio-call-chat-7''"
    and s: "s_props (scope (offering (Resolves SendError))) = caller"
    by (simp_all add: offering_def unfold_run)
  from C8_send_failure_never_retried [of "offering (Resolves SendError)" "''audio-call-chat-7''"
      "browserWith (Resolves SendError)" "scope (offering (Resolves SendError))" "Offer ''sdp-offer''"
      1 caller "[UserMedia (Some [microphone]), SubscribeStatusEv SUBSCRIBED, SettleTimeout, SettleTimeout]"] c s
  show ?thesis by (simp add: signal_def toBob_def caller_def browserWith_def)
qed

text \<open>
  C8 as stated fails. The initiator's offer fails to send. When the send
  resolves to \<open>'error'\<close> nothing is logged; when it throws there is a log
  line. In neither case is there a second send, however often the timer
  event comes; \<open>initializeCall\<close> is finished and the status is still
  \<open>Connecting\<close>.
\<close>

theorem C8_counterexample:
  "trace (step (browserWith (Resolves SendError)) caller SettleTimeout (offering (Resolves SendError)))
     = trace (offering (Resolves SendError))
         @ [CreateOffer 1, SetLocalDescription 1 ''sdp-offer'',
            Send ''audio-call-chat-7'' (toBob (Offer ''sdp-offer''))]
   \<and> trace (step (browserWith Throws) caller SettleTimeout (offering Throws))
     = trace (offering Throws)
         @ [CreateOffer 1, SetLocalDescription 1 ''sdp-offer'',
            Send ''audio-call-chat-7'' (toBob (Offer ''sdp-offer'')),
            ConsoleError ErrorSendingSignalingMessage]
   \<and> callStatus (step (browserWith Throws) caller SettleTimeout (offering Throws)) = Connecting
   \<and> initPhase (step (browserWith Throws) caller SettleTimeout (offering Throws)) = Finished
   \<and> count isOfferSend (trace (run (browserWith Throws) caller [SettleTimeout, SettleTimeout, SettleTimeout]
        (offering Throws))) = 1"
  by (simp add: offering_def unfold_run)

subsection \<open>C9\<close>

text \<open>
  C9, as amended. With a local stream held, \<open>toggleMute\<close> flips the muted
  flag and the \<open>enabled\<close> flag of each audio track of that stream and changes
  nothing else; with none held it does nothing. In either case it adds nothing
  to the trace (no send, no call on the connection) and leaves every
  connection as it was.
\<close>

theorem C9_toggleMute_is_local:
  "(localStream w = Some sid \<longrightarrow>
      isMuted (toggleMute (current_scope props w) w) = (\<not> isMuted w)
      \<and> streams (toggleMute (current_scope props w) w) sid = map toggleTrack (streams w sid)
      \<and> (toggleMute (current_scope props w) w)\<lparr>streams := streams w, isMuted := isMuted w\<rparr> = w)
   \<and> (localStream w = None \<longrightarrow> toggleMute (current_scope props w) w = w)
   \<and> (\<forall>r. localStream w \<noteq> Some r \<longrightarrow>
         streams (toggleMute (current_scope props w) w) r = streams w r)
   \<and> trace (toggleMute sc w) = trace w
   \<and> conns (toggleMute sc w) = conns w
   \<and> enabled (toggleTrack t) = (if kind t = AudioKind then \<not> enabled t else enabled t)
   \<and> kind (toggleTrack t) = kind t \<and> stopped (toggleTrack t) = stopped t"
  by (cases w) (auto simp: toggleMute_def current_scope_def toggleTrack_def split: option.splits)

theorem C9_witness:
  "localStream talking = Some 0
   \<and> isMuted (toggleMute (current_scope callee talking) talking) = (\<not> isMuted talking)
   \<and> streams (toggleMute (current_scope callee talking) talking) 0
       = [\<lparr>kind = AudioKind, enabled = False, stopped = False\<rparr>]
   \<and> trace (toggleMute (current_scope callee talking) talking) = trace talking"
  using C9_toggleMute_is_local [of talking 0 callee "current_scope callee talking" microphone]
  by (simp add: talking_eval toggleTrack_def microphone_def)

text \<open>
  C9 as stated fails. A remote end-call has emptied \<open>localStream\<close> and a
  connectivity report has set the status back to \<open>Connected\<close>, so the mute
  button is enabled: a click on it does not flip the muted flag.
\<close>

theorem C9_counterexample:
  "callStatus (run (browser True) callee
       [Broadcast (toBob EndCall), IceStateChange IceConnected] talking) = Connected
   \<and> localStream (run (browser True) callee
       [Broadcast (toBob EndCall), IceStateChange IceConnected] talking) = None
   \<and> isMuted (run (browser True) callee
       [Broadcast (toBob EndCall), IceStateChange IceConnected] talking) = False
   \<and> isMuted (run (browser True) callee
       [Broadcast (toBob EndCall), IceStateChange IceConnected, ClickMute] talking) = False"
  by (simp add: talking_def unfold_run)

subsection \<open>C10\<close>

text \<open>
  C10. A remote end-call received while the channel is attached is answered
  with an end-call before anything is released: the handler's first effect is
  the send, then come the effects of \<open>cleanup\<close>, among them the removal of
  the channel, then \<open>onClose\<close>.
\<close>

theorem C10_remote_hangup_is_answered_with_hangup:
  "channelRef w = Some ch \<Longrightarrow> p_to pl = currentUserId (s_props sc) \<Longrightarrow> p_message pl = EndCall \<Longrightarrow>
     trace (onBroadcast pf sc p pl w) =
       trace w @ [Send ch (signal sc EndCall)] @ released sc w @ [OnClose] @ sendLog pf (signal sc EndCall)
     \<and> RemoveChannel ch \<in> set (released sc w)
     \<and> channelRef (onBroadcast pf sc p pl w) = None
     \<and> callStatus (onBroadcast pf sc p pl w) = Ended"
  by (simp add: onBroadcast_def handleEndCall_trace released_def)

theorem C10_witness:
  "channelRef talking = Some ''audio-call-chat-7''
   \<and> p_to (toBob EndCall) = currentUserId (s_props (scope talking))
   \<and> p_message (toBob EndCall) = EndCall
   \<and> trace (onBroadcast (browser True) (scope talking) 1 (toBob EndCall) talking) =
       trace talking @ [Send ''audio-call-chat-7'' (toAlice EndCall),
                        RemoveChannel ''audio-call-chat-7'', OnClose]"
  using C10_remote_hangup_is_answered_with_hangup [of talking "''audio-call-chat-7''" "toBob EndCall"
      "scope talking" "browser True" 1]
  by (simp add: talking_eval released_def sendLog_def signal_def toAlice_def toBob_def callee_def browser_def browserWith_def)

end
